theory Spec2Isabelle
  imports Complex_Main "HOL-Library.Sublist" "HOL-Library.AList"
begin

section \<open>Background worker registry (core.py, \<open>_BackgroundWorkers\<close>)\<close>

text \<open>
  The registry holds the list of registered workers and a suspension counter. Calling a
  worker's own \<open>suspend()\<close> or \<open>resume()\<close> is an effect on an object outside the
  registry; it is recorded as a \<open>worker_call\<close>, and every operation returns the calls it
  made, in order, together with the new registry.
\<close>

datatype 'w worker_call = Worker_suspend 'w | Worker_resume 'w

record 'w BackgroundWorkers =
  bw_workers :: "'w list"
  bw_count :: int

definition bw_init :: "'w BackgroundWorkers" where
  "bw_init = \<lparr>bw_workers = [], bw_count = 0\<rparr>"

definition suspend :: "'w BackgroundWorkers \<Rightarrow> 'w worker_call list \<times> 'w BackgroundWorkers" where
  "suspend s =
     ((if bw_count s = 0 then map Worker_suspend (bw_workers s) else []),
      s\<lparr>bw_count := bw_count s + 1\<rparr>)"

definition resume :: "'w BackgroundWorkers \<Rightarrow> 'w worker_call list \<times> 'w BackgroundWorkers" where
  "resume s =
     (if bw_count s > 0 then
        (let s' = s\<lparr>bw_count := bw_count s - 1\<rparr>
         in ((if bw_count s' = 0 then map Worker_resume (bw_workers s') else []), s'))
      else ([], s))"

definition register :: "'w \<Rightarrow> 'w BackgroundWorkers \<Rightarrow> 'w BackgroundWorkers" where
  "register w s = (if w \<notin> set (bw_workers s) then s\<lparr>bw_workers := bw_workers s @ [w]\<rparr> else s)"

text \<open>\<open>list.index\<close> raises \<open>ValueError\<close> for a worker that is not registered (\<open>None\<close> here);
  otherwise the first occurrence is deleted.\<close>

definition unregister :: "'w \<Rightarrow> 'w BackgroundWorkers \<Rightarrow> 'w BackgroundWorkers option" where
  "unregister w s =
     (if w \<in> set (bw_workers s) then Some (s\<lparr>bw_workers := remove1 w (bw_workers s)\<rparr>) else None)"

text \<open>A sequence of \<open>suspend()\<close> and \<open>resume()\<close> calls, run from left to right.\<close>

datatype bw_op = Suspend | Resume

fun bw_step :: "bw_op \<Rightarrow> 'w BackgroundWorkers \<Rightarrow> 'w worker_call list \<times> 'w BackgroundWorkers" where
  "bw_step Suspend s = suspend s"
| "bw_step Resume s = resume s"

fun bw_run :: "bw_op list \<Rightarrow> 'w BackgroundWorkers \<Rightarrow> 'w BackgroundWorkers" where
  "bw_run [] s = s"
| "bw_run (x # xs) s = bw_run xs (snd (bw_step x s))"

section \<open>Values and the comparator (core.py, \<open>SnapshotPv.compare\<close>)\<close>

subsection \<open>Floating-point numbers\<close>

text \<open>
  A Python \<open>float\<close>, and an element of a numpy \<open>float64\<close> array, is an IEEE 754 binary64
  value: a finite number, \<open>inf\<close>, \<open>-inf\<close> or \<open>nan\<close>. A finite value is written \<open>Finite a\<close>
  with the real number \<open>a\<close> it denotes; the reals that are binary64 values are the fixed
  points of the rounding \<open>round_f64\<close> below. (The two zeros are one value here: they
  compare equal and no operation of this model tells them apart.)
\<close>

datatype f64 = Finite real | PosInf | NegInf | NaN

text \<open>Rounding to the nearest integer, ties to the even one.\<close>

definition round_half_even :: "real \<Rightarrow> int" where
  "round_half_even x =
     (let f = \<lfloor>x\<rfloor>; d = x - of_int f
      in if d < 1/2 then f else if 1/2 < d then f + 1 else if even f then f else f + 1)"

text \<open>The binary exponent of a positive real: \<open>2 ^ ilog2 a \<le> a < 2 ^ (ilog2 a + 1)\<close>.\<close>

function ilog2 :: "real \<Rightarrow> int" where
  "ilog2 a =
     (if 2 \<le> a then ilog2 (a / 2) + 1
      else if 0 < a \<and> a < 1 then ilog2 (2 * a) - 1
      else 0)"
  by pat_completeness auto
termination
proof (relation "measure (\<lambda>a. if 1 \<le> a then nat \<lfloor>a\<rfloor> else nat \<lceil>1 / a\<rceil>)")
  show "wf (measure (\<lambda>a. if 1 \<le> a then nat \<lfloor>a\<rfloor> else nat \<lceil>1 / a\<rceil>))" by simp
next
  fix a :: real
  assume "2 \<le> a"
  then have "\<lfloor>a / 2\<rfloor> < \<lfloor>a\<rfloor>" by linarith
  moreover have "0 \<le> \<lfloor>a / 2\<rfloor>" using \<open>2 \<le> a\<close> by simp
  ultimately show "(a / 2, a) \<in> measure (\<lambda>a. if 1 \<le> a then nat \<lfloor>a\<rfloor> else nat \<lceil>1 / a\<rceil>)"
    using \<open>2 \<le> a\<close> by simp
next
  fix a :: real
  assume "\<not> 2 \<le> a" and a: "0 < a \<and> a < 1"
  show "(2 * a, a) \<in> measure (\<lambda>a. if 1 \<le> a then nat \<lfloor>a\<rfloor> else nat \<lceil>1 / a\<rceil>)"
  proof (cases "1 \<le> 2 * a")
    case True
    have "\<lfloor>2 * a\<rfloor> = 1" using True a by linarith
    moreover have "1 < 1 / a" using a by simp
    then have "2 \<le> \<lceil>1 / a\<rceil>" by linarith
    ultimately show ?thesis using True a by simp
  next
    case False
    then have x: "2 < 1 / a" using a by (simp add: field_simps)
    have "real_of_int \<lceil>1 / a / 2\<rceil> < 1 / a / 2 + 1" by linarith
    also have "\<dots> \<le> 1 / a" using x by simp
    also have "\<dots> \<le> real_of_int \<lceil>1 / a\<rceil>" by linarith
    finally have "\<lceil>1 / a / 2\<rceil> < \<lceil>1 / a\<rceil>" by simp
    moreover have "0 < \<lceil>1 / a\<rceil>" using x by linarith
    moreover have "1 / (2 * a) = 1 / a / 2" by simp
    ultimately show ?thesis using False a by (simp add: mult.commute)
  qed
qed

declare ilog2.simps [simp del]

text \<open>
  Round to nearest, ties to even, as the hardware does: a positive real \<open>a\<close> is rounded to
  a multiple of \<open>2 ^ ulp_exp a\<close>, the spacing of the binary64 values around it (53
  significant bits; the spacing stops shrinking at \<open>2 ^ -1074\<close>, the subnormal range);
  a result of \<open>2 ^ 1024\<close> or more is an overflow to infinity.
\<close>

definition ulp_exp :: "real \<Rightarrow> int" where
  "ulp_exp a = max (ilog2 a - 52) (-1074)"

definition round_pos :: "real \<Rightarrow> real" where
  "round_pos a = of_int (round_half_even (a / 2 powi ulp_exp a)) * 2 powi ulp_exp a"

definition round_f64 :: "real \<Rightarrow> f64" where
  "round_f64 x =
     (if x = 0 then Finite 0
      else if 1024 \<le> ilog2 \<bar>x\<bar> \<or> 2 ^ 1024 \<le> round_pos \<bar>x\<bar>
        then (if 0 < x then PosInf else NegInf)
      else Finite (sgn x * round_pos \<bar>x\<bar>))"

text \<open>The arithmetic and the comparisons of binary64 that \<open>numpy.isclose\<close> uses: negation,
  \<open>abs\<close>, \<open>isfinite\<close>, \<open>+\<close>, \<open>-\<close>, \<open>*\<close>, \<open><=\<close> and \<open>==\<close>. A finite result is the exact result
  rounded; \<open>nan\<close> propagates and compares false with everything, itself included.\<close>

fun fneg :: "f64 \<Rightarrow> f64" where
  "fneg (Finite a) = Finite (- a)"
| "fneg PosInf = NegInf"
| "fneg NegInf = PosInf"
| "fneg NaN = NaN"

fun fabs :: "f64 \<Rightarrow> f64" where
  "fabs (Finite a) = Finite \<bar>a\<bar>"
| "fabs PosInf = PosInf"
| "fabs NegInf = PosInf"
| "fabs NaN = NaN"

fun isfinite :: "f64 \<Rightarrow> bool" where
  "isfinite (Finite a) = True"
| "isfinite x = False"

fun fadd :: "f64 \<Rightarrow> f64 \<Rightarrow> f64" where
  "fadd NaN y = NaN"
| "fadd x NaN = NaN"
| "fadd (Finite a) (Finite b) = round_f64 (a + b)"
| "fadd PosInf NegInf = NaN"
| "fadd NegInf PosInf = NaN"
| "fadd PosInf y = PosInf"
| "fadd NegInf y = NegInf"
| "fadd (Finite a) y = y"

definition fsub :: "f64 \<Rightarrow> f64 \<Rightarrow> f64" where
  "fsub x y = fadd x (fneg y)"

fun fmul :: "f64 \<Rightarrow> f64 \<Rightarrow> f64" where
  "fmul NaN y = NaN"
| "fmul x NaN = NaN"
| "fmul (Finite a) (Finite b) = round_f64 (a * b)"
| "fmul (Finite a) y = (if a = 0 then NaN else if 0 < a then y else fneg y)"
| "fmul x (Finite b) = (if b = 0 then NaN else if 0 < b then x else fneg x)"
| "fmul PosInf y = y"
| "fmul NegInf y = fneg y"

fun fle :: "f64 \<Rightarrow> f64 \<Rightarrow> bool" where
  "fle NaN y = False"
| "fle x NaN = False"
| "fle (Finite a) (Finite b) = (a \<le> b)"
| "fle NegInf y = True"
| "fle x PosInf = True"
| "fle x y = False"

fun feq :: "f64 \<Rightarrow> f64 \<Rightarrow> bool" where
  "feq (Finite a) (Finite b) = (a = b)"
| "feq PosInf PosInf = True"
| "feq NegInf NegInf = True"
| "feq x y = False"

subsection \<open>Channel values\<close>

text \<open>
  A channel value is \<open>None\<close>, a number, a string, or a one-dimensional numpy array of
  numbers or of strings (the client library is asked for numpy arrays, and the save-file
  parser turns every list into one). A number is a \<open>float\<close>, possibly \<open>inf\<close> or \<open>nan\<close>
  (a save file can hold the literals \<open>Infinity\<close> and \<open>NaN\<close>), or an \<open>int\<close>: \<open>Finite a\<close>
  with a real \<open>a\<close> that is not a binary64 value stands for the Python \<open>int\<close> \<open>a\<close>, which
  numpy converts to \<open>float64\<close> (\<open>to_f64\<close>) before it computes with it.
\<close>

datatype pyvalue = PNone | PNum f64 | PStr string | PNumArr "f64 list" | PStrArr "string list"

datatype scalar = SNone | SNum f64 | SStr string

datatype py_error = TypeError | ValueError

fun to_f64 :: "f64 \<Rightarrow> f64" where
  "to_f64 (Finite a) = round_f64 a"
| "to_f64 x = x"

text \<open>The numpy functions \<open>compare\<close> calls, on these values. \<open>isinstance(v, numpy.ndarray)\<close>:\<close>

fun is_ndarray :: "pyvalue \<Rightarrow> bool" where
  "is_ndarray (PNumArr xs) = True"
| "is_ndarray (PStrArr xs) = True"
| "is_ndarray v = False"

text \<open>\<open>numpy.size\<close>: the number of elements; 1 for a scalar, for a string and for \<open>None\<close>
  (each becomes a zero-dimensional array).\<close>

fun np_size :: "pyvalue \<Rightarrow> nat" where
  "np_size (PNumArr xs) = length xs"
| "np_size (PStrArr xs) = length xs"
| "np_size v = 1"

text \<open>\<open>numpy.array([v])\<close> for a scalar \<open>v\<close>.\<close>

fun np_array1 :: "pyvalue \<Rightarrow> pyvalue" where
  "np_array1 (PNum x) = PNumArr [x]"
| "np_array1 (PStr s) = PStrArr [s]"
| "np_array1 v = v"

fun np_elems :: "pyvalue \<Rightarrow> scalar list" where
  "np_elems PNone = [SNone]"
| "np_elems (PNum x) = [SNum x]"
| "np_elems (PStr s) = [SStr s]"
| "np_elems (PNumArr xs) = map SNum xs"
| "np_elems (PStrArr xs) = map SStr xs"

fun np_numbers :: "pyvalue \<Rightarrow> f64 list option" where
  "np_numbers (PNum x) = Some [x]"
| "np_numbers (PNumArr xs) = Some xs"
| "np_numbers v = None"

text \<open>Broadcasting of two operands of at most one dimension: equal lengths pair up, a
  single element pairs with every element of the other side, anything else cannot be
  broadcast (numpy raises \<open>ValueError\<close>).\<close>

definition np_broadcast :: "'a list \<Rightarrow> 'b list \<Rightarrow> ('a \<times> 'b) list option" where
  "np_broadcast xs ys =
     (if length xs = length ys then Some (zip xs ys)
      else if length xs = 1 then Some (map (\<lambda>y. (hd xs, y)) ys)
      else if length ys = 1 then Some (map (\<lambda>x. (x, hd ys)) xs)
      else None)"

text \<open>
  \<open>numpy.isclose(a, b, rtol, atol)\<close> on one pair of elements, with \<open>equal_nan=False\<close> as
  \<open>numpy.allclose\<close> calls it. The operands are taken as \<open>float64\<close>. Where both are
  finite the test is \<open>abs(x - y) <= atol + rtol * abs(y)\<close>, every operation in binary64
  arithmetic; elsewhere it is \<open>x == y\<close>, so that an infinity is close to itself only and
  \<open>nan\<close> is close to nothing. (Later numpy releases write the test as the single
  expression \<open>(abs(x - y) <= atol + rtol * abs(y)) & isfinite(y) | (x == y)\<close>, which has
  the same value whenever \<open>atol\<close> is finite and not negative.)
\<close>

definition np_isclose :: "f64 \<Rightarrow> f64 \<Rightarrow> real \<Rightarrow> real \<Rightarrow> bool" where
  "np_isclose a b atol rtol =
     (let x = to_f64 a; y = to_f64 b
      in if isfinite x \<and> isfinite y
         then fle (fabs (fsub x y)) (fadd (round_f64 atol) (fmul (round_f64 rtol) (fabs y)))
         else feq x y)"

text \<open>\<open>numpy.allclose(a, b, atol=atol, rtol=rtol)\<close>: \<open>TypeError\<close> when an operand is not
  numeric, \<open>ValueError\<close> when the shapes cannot be broadcast, otherwise whether
  \<open>isclose\<close> holds for every pair of elements.\<close>

definition np_allclose :: "pyvalue \<Rightarrow> pyvalue \<Rightarrow> real \<Rightarrow> real \<Rightarrow> py_error + bool" where
  "np_allclose a b atol rtol =
     (case (np_numbers a, np_numbers b) of
        (Some xs, Some ys) \<Rightarrow>
          (case np_broadcast xs ys of
             None \<Rightarrow> Inl ValueError
           | Some ps \<Rightarrow> Inr (list_all (\<lambda>(x, y). np_isclose x y atol rtol) ps))
      | _ \<Rightarrow> Inl TypeError)"

text \<open>\<open>numpy.array_equal\<close>: same shape and elements that compare equal with \<open>==\<close>.\<close>

fun scalar_eq :: "scalar \<Rightarrow> scalar \<Rightarrow> bool" where
  "scalar_eq (SNum a) (SNum b) = feq (to_f64 a) (to_f64 b)"
| "scalar_eq (SStr s) (SStr t) = (s = t)"
| "scalar_eq SNone SNone = True"
| "scalar_eq x y = False"

definition np_array_equal :: "pyvalue \<Rightarrow> pyvalue \<Rightarrow> bool" where
  "np_array_equal a b \<longleftrightarrow>
     is_ndarray a = is_ndarray b \<and> list_all2 scalar_eq (np_elems a) (np_elems b)"

text \<open>The normalisation \<open>compare\<close> applies to each operand when \<open>is_array\<close> holds (the
  source writes the \<open>if\<close>/\<open>elif\<close> once for \<open>value1\<close> and once for \<open>value2\<close>).\<close>

definition normalize_operand :: "pyvalue \<Rightarrow> pyvalue" where
  "normalize_operand v =
     (if v \<noteq> PNone \<and> \<not> is_ndarray v \<and> np_size v = 1 then np_array1 v
      else if np_size v = 0 then PNone
      else v)"

text \<open>\<open>compare\<close> catches the \<open>TypeError\<close> of \<open>numpy.allclose\<close> only; any other exception
  leaves the function.\<close>

definition compare :: "pyvalue \<Rightarrow> pyvalue \<Rightarrow> bool \<Rightarrow> real \<Rightarrow> py_error + bool" where
  "compare value1 value2 is_array tolerance =
     (let value1 = (if is_array then normalize_operand value1 else value1);
          value2 = (if is_array then normalize_operand value2 else value2)
      in if value1 = PNone \<or> value2 = PNone then Inr (value1 = value2)
         else (case np_allclose value1 value2 tolerance 0 of
                 Inl TypeError \<Rightarrow> Inr (np_array_equal value1 value2)
               | Inl e \<Rightarrow> Inl e
               | Inr r \<Rightarrow> Inr r))"

section \<open>The PV cache entry (core.py, \<open>SnapshotPv\<close>)\<close>

datatype PvStatus = Access_err | Ok | No_value | Equal | Type_err

text \<open>
  The entry's own fields (\<open>is_array\<close>, \<open>_last_value\<close>, \<open>_initialized\<close>, whether
  \<open>_pvget_completer\<close> is set) and the state of the channel as the entry reads it
  (\<open>pvname\<close>, \<open>connected\<close>, \<open>read_access\<close>, \<open>write_access\<close>).
\<close>

record SnapshotPv =
  pv_name :: string
  pv_connected :: bool
  pv_read_access :: bool
  pv_write_access :: bool
  is_array :: bool
  last_value :: pyvalue
  initialized :: bool
  pvget_completer :: bool

text \<open>
  What the control-system client answers is not decided by this code, so it is an input of
  the model. \<open>ca.get_complete_with_metadata\<close> returns the metadata (\<open>Completed v\<close>, with
  \<open>v\<close> its \<open>value\<close>), returns \<open>None\<close> when the read has not finished in time
  (\<open>TimedOut\<close>), or raises \<open>ChannelAccessException\<close>. \<open>ch_get\<close> is what the blocking
  \<open>PV.get\<close> returns (\<open>None\<close> when it times out), \<open>ch_put_rejects v\<close> whether \<open>PV.put\<close>
  raises \<open>TypeError\<close> for the value \<open>v\<close>.
\<close>

datatype ca_outcome = Completed pyvalue | TimedOut | CaException

record channel =
  ch_complete :: ca_outcome
  ch_get :: pyvalue
  ch_put_rejects :: "pyvalue \<Rightarrow> bool"

text \<open>
  The effects of a call, in order: a synchronous call of the callback with a status;
  a non-blocking write issued with \<open>put(value, wait=False, callback=..., callback_data=
  {"status": ...})\<close> (the value, whether a callback was passed, and the status its
  completion reports); a blocking \<open>PV.get(use_monitor=False, with_ctrlvars=True)\<close>;
  a wait on the completion of a read the scheduler started.
\<close>

datatype event =
    Callback PvStatus
  | Put pyvalue bool PvStatus
  | CaGet
  | CaGetComplete

text \<open>\<open>PvUpdater._get_complete(pv, wait)\<close>. \<open>wait\<close> only selects the timeout.\<close>

definition get_complete :: "ca_outcome \<Rightarrow> bool \<Rightarrow> SnapshotPv \<Rightarrow> pyvalue \<times> SnapshotPv \<times> event list" where
  "get_complete outcome wait pv =
     (if pv_connected pv then
        (case outcome of
           Completed v \<Rightarrow> (v, pv\<lparr>pvget_completer := False, last_value := v\<rparr>, [CaGetComplete])
         | TimedOut \<Rightarrow> (PNone, pv, [CaGetComplete])
         | CaException \<Rightarrow> (PNone, pv, [CaGetComplete]))
      else (PNone, pv, []))"

text \<open>\<open>SnapshotPv.get\<close> called with arguments (the branch under \<open>if args or kwargs\<close>).\<close>

definition get_args :: "channel \<Rightarrow> SnapshotPv \<Rightarrow> pyvalue \<times> SnapshotPv \<times> event list" where
  "get_args ch pv =
     (if pvget_completer pv then
        (case get_complete (ch_complete ch) True pv of
           (val, pv', evs) \<Rightarrow>
             if val = PNone then (PNone, pv', evs)
             else (ch_get ch, pv', evs @ [CaGet]))
      else (ch_get ch, pv, [CaGet]))"

text \<open>The overridden property \<open>SnapshotPv.value\<close> (\<open>get_value\<close> in the specification;
  \<open>value\<close> is an Isabelle keyword).\<close>

definition get_value :: "channel \<Rightarrow> SnapshotPv \<Rightarrow> pyvalue \<times> SnapshotPv \<times> event list" where
  "get_value ch pv =
     (let value = last_value pv in
      if \<not> initialized pv then
        (case get_args ch (pv\<lparr>initialized := True\<rparr>) of
           (value, pv', evs) \<Rightarrow> (value, pv'\<lparr>last_value := value\<rparr>, evs))
      else (value, pv, []))"

text \<open>\<open>SnapshotPv.get\<close>: without arguments it is the property \<open>value\<close>.\<close>

definition get :: "bool \<Rightarrow> channel \<Rightarrow> SnapshotPv \<Rightarrow> pyvalue \<times> SnapshotPv \<times> event list" where
  "get has_args ch pv = (if has_args then get_args ch pv else get_value ch pv)"

definition compare_to_curr ::
  "channel \<Rightarrow> SnapshotPv \<Rightarrow> pyvalue \<Rightarrow> (py_error + bool) \<times> SnapshotPv \<times> event list" where
  "compare_to_curr ch pv value =
     (case get_value ch pv of
        (current, pv', evs) \<Rightarrow> (compare value current (is_array pv') 0, pv', evs))"

text \<open>
  \<open>SnapshotPv.restore_pv(value, callback)\<close>. \<open>callback\<close> says whether a callback was
  passed; calling the default \<open>None\<close> raises \<open>TypeError\<close>. The result is the exception
  that leaves the function (\<open>Inl\<close>) or a normal return, the entry afterwards and the
  effects.
\<close>

definition restore_pv ::
  "channel \<Rightarrow> SnapshotPv \<Rightarrow> pyvalue \<Rightarrow> bool \<Rightarrow> (py_error + unit) \<times> SnapshotPv \<times> event list" where
  "restore_pv ch pv value callback =
     (if pv_connected pv then
        if pv_write_access pv then
          if value = PNone then
            (if callback then (Inr (), pv, [Callback No_value]) else (Inl TypeError, pv, []))
          else
            (case compare_to_curr ch pv value of
               (Inl e, pv', evs) \<Rightarrow> (Inl e, pv', evs)
             | (Inr False, pv', evs) \<Rightarrow>
                 if ch_put_rejects ch value then
                   (if callback then (Inr (), pv', evs @ [Callback Type_err])
                    else (Inl TypeError, pv', evs))
                 else (Inr (), pv', evs @ [Put value callback Ok])
             | (Inr True, pv', evs) \<Rightarrow>
                 if callback then (Inr (), pv', evs @ [Callback Equal]) else (Inr (), pv', evs))
        else if callback then (Inr (), pv, [Callback Access_err]) else (Inr (), pv, [])
      else if callback then (Inr (), pv, [Callback Access_err]) else (Inr (), pv, []))"


section \<open>The scheduler (core.py, \<open>PvUpdater\<close>)\<close>

text \<open>
  One pass of the loop body of \<open>PvUpdater._run\<close> after the sleep, for the entries in
  \<open>_pvs\<close>. The pass holds every entry's lock, so no other caller touches the entries
  meanwhile. For each entry the client's answers during the pass are: whether
  \<open>get_ctrlvars()\<close> returned something, whether starting the read raised
  \<open>ChannelAccessException\<close>, and the outcome of the completion.
\<close>

record cycle_answers =
  ans_ctrlvars :: bool
  ans_start_raises :: bool
  ans_complete :: ca_outcome

text \<open>\<open>PvUpdater._get_start(pv)\<close>.\<close>

definition get_start :: "bool \<Rightarrow> SnapshotPv \<Rightarrow> SnapshotPv" where
  "get_start raises pv =
     (if pv_connected pv then
        (if raises then pv else pv\<lparr>pvget_completer := True\<rparr>)
      else pv)"

text \<open>The body of the first \<open>for pv in self._pvs\<close> loop.\<close>

definition cycle_begin :: "cycle_answers \<Rightarrow> SnapshotPv \<Rightarrow> SnapshotPv" where
  "cycle_begin ans pv =
     get_start (ans_start_raises ans)
       (if \<not> initialized pv then
          (if pv_connected pv then
             (if ans_ctrlvars ans then pv\<lparr>initialized := True\<rparr> else pv)
           else pv)
        else pv)"

text \<open>\<open>vals = [self._get_complete(pv) for pv in self._pvs]\<close>.\<close>

definition cycle_collect :: "(cycle_answers \<times> SnapshotPv) list \<Rightarrow> pyvalue list \<times> SnapshotPv list" where
  "cycle_collect xs =
     (let rs = map (\<lambda>(ans, pv). get_complete (ans_complete ans) False pv) xs
      in (map fst rs, map (\<lambda>r. fst (snd r)) rs))"

text \<open>A suspended scheduler skips the pass and calls no callback (\<open>None\<close>); otherwise
  the callback receives \<open>vals\<close>.\<close>

definition run_cycle ::
  "bool \<Rightarrow> cycle_answers list \<Rightarrow> SnapshotPv list \<Rightarrow> pyvalue list option \<times> SnapshotPv list" where
  "run_cycle suspended answers pvs =
     (if suspended then (None, pvs)
      else (case cycle_collect (zip answers (map2 cycle_begin answers pvs)) of
              (vals, pvs') \<Rightarrow> (Some vals, pvs')))"

section \<open>Python strings\<close>

text \<open>
  A string is a list of characters. The operations of \<open>str\<close> the parsers use:
  \<open>strip\<close>, \<open>rstrip\<close> (the whitespace of \<open>str.isspace\<close> among the code points below 256),
  \<open>startswith\<close>, \<open>endswith\<close>, \<open>split(c, maxsplit=1)\<close>, \<open>split(c)\<close>, \<open>sep.join\<close>,
  \<open>replace\<close>, and the decimal text \<open>format\<close> gives a line number.
\<close>

definition is_space :: "char \<Rightarrow> bool" where
  "is_space c \<longleftrightarrow> of_char c \<in> {9, 10, 11, 12, 13, 28, 29, 30, 31, 32, 133, 160 :: nat}"

definition lstrip :: "string \<Rightarrow> string" where
  "lstrip s = dropWhile is_space s"

definition rstrip :: "string \<Rightarrow> string" where
  "rstrip s = rev (dropWhile is_space (rev s))"

definition strip :: "string \<Rightarrow> string" where
  "strip s = lstrip (rstrip s)"

definition startswith :: "string \<Rightarrow> string \<Rightarrow> bool" where
  "startswith s p \<longleftrightarrow> take (length p) s = p"

definition endswith :: "string \<Rightarrow> string \<Rightarrow> bool" where
  "endswith s p \<longleftrightarrow> length p \<le> length s \<and> drop (length s - length p) s = p"

definition split_max1 :: "char \<Rightarrow> string \<Rightarrow> string list" where
  "split_max1 c s =
     (if c \<in> set s then [takeWhile (\<lambda>x. x \<noteq> c) s, tl (dropWhile (\<lambda>x. x \<noteq> c) s)] else [s])"

fun split_char :: "char \<Rightarrow> string \<Rightarrow> string list" where
  "split_char c [] = [[]]"
| "split_char c (x # xs) =
     (if x = c then [] # split_char c xs
      else (case split_char c xs of w # ws \<Rightarrow> (x # w) # ws | [] \<Rightarrow> [[x]]))"

fun join :: "string \<Rightarrow> string list \<Rightarrow> string" where
  "join sep [] = []"
| "join sep [x] = x"
| "join sep (x # y # ys) = x @ sep @ join sep (y # ys)"

function replace :: "string \<Rightarrow> string \<Rightarrow> string \<Rightarrow> string" where
  "replace old new s =
     (if old = [] then new @ concat (map (\<lambda>c. c # new) s)
      else if s = [] then []
      else if startswith s old then new @ replace old new (drop (length old) s)
      else hd s # replace old new (tl s))"
  by pat_completeness auto
termination
  by (relation "measure (\<lambda>(old, new, s). length s)") auto

declare replace.simps [simp del]

function show_nat :: "nat \<Rightarrow> string" where
  "show_nat n =
     (if n < 10 then [char_of (48 + n)]
      else show_nat (n div 10) @ [char_of (48 + n mod 10)])"
  by pat_completeness auto
termination
  by (relation "measure id") auto

declare show_nat.simps [simp del]

text \<open>
  \<open>re.compile('\$\(.*?\)').findall(s)\<close>: the matches from left to right, without
  overlap. A match starts at \<open>$(\<close> and ends at the first \<open>)\<close> after it, provided no newline
  comes before that \<open>)\<close> (the dot does not match a newline); where no match starts, the
  search moves on by one character.
\<close>

function findall_macros :: "string \<Rightarrow> string list" where
  "findall_macros s =
     (if s = [] then []
      else if startswith s ''$('' then
        (let body = takeWhile (\<lambda>c. c \<noteq> CHR '')'' \<and> c \<noteq> CHR 0x0A) (drop 2 s);
             rest = dropWhile (\<lambda>c. c \<noteq> CHR '')'' \<and> c \<noteq> CHR 0x0A) (drop 2 s)
         in if startswith rest '')'' then (''$('' @ body @ '')'') # findall_macros (tl rest)
            else findall_macros (tl s))
      else findall_macros (tl s))"
  by pat_completeness auto
termination
proof (relation "measure length")
  fix s :: string and body rest :: string
  assume s: "s \<noteq> []" and r: "rest = dropWhile (\<lambda>c. c \<noteq> CHR '')'' \<and> c \<noteq> CHR 0x0A) (drop 2 s)"
    and st: "startswith rest '')''"
  have "rest \<noteq> []" using st by (auto simp add: startswith_def)
  then have "length (tl rest) < length rest" by simp
  also have "length rest \<le> length (drop 2 s)" unfolding r by (rule length_dropWhile_le)
  also have "\<dots> \<le> length s" by simp
  finally show "(tl rest, s) \<in> measure length" by simp
qed auto

declare findall_macros.simps [simp del]


section \<open>Request files (parser.py, \<open>SnapshotReqFile\<close>)\<close>

datatype req_error =
    MacroError string
  | ReqParseError string
  | ReqFileFormatError string
  | ReqFileInfLoopError string
  | IOError string

text \<open>
  A \<open>SnapshotReqFile\<close> object: \<open>_path\<close>, \<open>_parent\<close>, \<open>_macros\<close> (a dict, in insertion
  order), \<open>_c_macros\<close>, \<open>_trace\<close>, \<open>_curr_line_n\<close> and \<open>_curr_line\<close>.
\<close>

datatype reqfile =
  ReqFile (rf_path: string) (rf_parent: "reqfile option") (rf_macros: "(string \<times> string) list")
    (rf_c_macros: "string list") (rf_trace: string) (rf_curr_line_n: nat)
    (rf_curr_line: "string option")

text \<open>
  The functions of \<open>os.path\<close> and the file system are not part of this code; they are
  parameters. \<open>open_file p\<close> is the list of the lines of the file at \<open>p\<close>, or the text of
  the \<open>IOError\<close> that \<open>open\<close> raises.
\<close>

record os_env =
  abspath :: "string \<Rightarrow> string"
  normpath :: "string \<Rightarrow> string"
  path_join :: "string \<Rightarrow> string \<Rightarrow> string"
  dirname :: "string \<Rightarrow> string"
  open_file :: "string \<Rightarrow> string + string list"

definition format_opt :: "string option \<Rightarrow> string" where
  "format_opt l = (case l of None \<Rightarrow> ''None'' | Some t \<Rightarrow> t)"

text \<open>\<open>SnapshotReqFile.__init__\<close>.\<close>

definition SnapshotReqFile ::
  "os_env \<Rightarrow> string \<Rightarrow> reqfile option \<Rightarrow> (string \<times> string) list \<Rightarrow> string list \<Rightarrow> reqfile" where
  "SnapshotReqFile os path parent macros changeable_macros =
     (let p = abspath os path
      in ReqFile p parent macros changeable_macros
           (case parent of
              Some par \<Rightarrow>
                rf_trace par @ '' [line '' @ show_nat (rf_curr_line_n par) @ '': ''
                  @ format_opt (rf_curr_line par) @ ''] >> '' @ p
            | None \<Rightarrow> p)
           0 None)"

fun set_curr_line :: "nat \<Rightarrow> string option \<Rightarrow> reqfile \<Rightarrow> reqfile" where
  "set_curr_line n l (ReqFile p par m c t n0 l0) = ReqFile p par m c t n l"

text \<open>\<open>SnapshotPv.macros_substitution\<close> (core.py): one \<open>replace\<close> per macro, in the order
  of the dict.\<close>

definition macros_substitution :: "string \<Rightarrow> (string \<times> string) list \<Rightarrow> string" where
  "macros_substitution txt macros =
     foldl (\<lambda>txt (key, val). replace (''$('' @ key @ '')'') val txt) txt macros"

text \<open>\<open>_format_err(line, msg)\<close>, with the two components of \<open>line\<close> already as text.\<close>

definition format_err :: "reqfile \<Rightarrow> string \<Rightarrow> string \<Rightarrow> string \<Rightarrow> string" where
  "format_err self line0 line1 msg =
     rf_trace self @ '' [line '' @ line0 @ '': '' @ line1 @ '']: '' @ msg"

text \<open>\<open>_validate_macros_in_txt\<close>: the list \<open>invalid_macros\<close> it collects, and the
  \<open>MacroError\<close> it raises (\<open>Inl\<close>, with the message) when the list is not empty.\<close>

definition invalid_macros :: "reqfile \<Rightarrow> string \<Rightarrow> string list" where
  "invalid_macros self txt =
     filter (\<lambda>raw_macro. raw_macro \<notin> set (map snd (rf_macros self))
                          \<and> butlast (drop 2 raw_macro) \<notin> set (rf_c_macros self))
       (findall_macros txt)"

definition validate_macros_in_txt :: "reqfile \<Rightarrow> string \<Rightarrow> string + unit" where
  "validate_macros_in_txt self txt =
     (if invalid_macros self txt \<noteq> []
      then Inl (''Following macros were not defined: '' @ join '', '' (invalid_macros self txt))
      else Inr ())"

text \<open>\<open>parse_macros\<close>: the loop over the comma-separated entries, then the function.\<close>

fun parse_macro_list :: "string \<Rightarrow> string list \<Rightarrow> (string \<times> string) list \<Rightarrow> string + (string \<times> string) list" where
  "parse_macro_list macros_str [] macros = Inr macros"
| "parse_macro_list macros_str (macro # rest) macros =
     (let split_macro = split_char CHR ''='' (strip macro)
      in if length split_macro = 2
         then parse_macro_list macros_str rest
                (AList.update (split_macro ! 0) (split_macro ! 1) macros)
         else Inl (''Following string cannot be parsed to macros: '' @ macros_str))"

definition parse_macros :: "string \<Rightarrow> string + (string \<times> string) list" where
  "parse_macros macros_str =
     (if macros_str \<noteq> [] then parse_macro_list macros_str (split_char CHR '','' macros_str) []
      else Inr [])"

text \<open>\<open>_check_looping\<close>: the \<open>while ancestor is not None\<close> loop, started at \<open>self\<close>
  with the normalised absolute path.\<close>

fun check_ancestors :: "os_env \<Rightarrow> string \<Rightarrow> reqfile \<Rightarrow> string option" where
  "check_ancestors os path (ReqFile p parent m c t n l) =
     (if normpath os (abspath os p) = path then
        (case parent of
           Some par \<Rightarrow> Some (''Infinity loop detected. File '' @ path
                             @ '' was already called from '' @ rf_path par)
         | None \<Rightarrow> Some (''Infinity loop detected. File '' @ path
                          @ '' was already loaded as root request file.''))
      else (case parent of None \<Rightarrow> None | Some par \<Rightarrow> check_ancestors os path par))"

definition check_looping :: "os_env \<Rightarrow> reqfile \<Rightarrow> string \<Rightarrow> string option" where
  "check_looping os self path = check_ancestors os (normpath os (abspath os path)) self"

text \<open>The macro argument of an include line (\<open>read\<close>, the branch
  \<open>if len(split_line) > 1\<close>): quoting, substitution, validation, \<open>parse_macros\<close>.\<close>

definition include_macros :: "reqfile \<Rightarrow> string \<Rightarrow> req_error + (string \<times> string) list" where
  "include_macros self arg =
     (let macro_txt = strip arg;
          line_n = show_nat (rf_curr_line_n self);
          line = format_opt (rf_curr_line self)
      in if \<not> (startswith macro_txt [CHR 0x22] \<or> startswith macro_txt [CHR 0x27])
         then Inl (ReqFileFormatError
                (format_err self line_n line ''Syntax error. Macros argument must be quoted.''))
         else if \<not> endswith macro_txt [hd macro_txt]
         then Inl (ReqFileFormatError
                (format_err self line_n line ''Syntax error. Macros argument must be quoted.''))
         else
           (let macro_txt = macros_substitution (butlast (tl macro_txt)) (rf_macros self)
            in case validate_macros_in_txt self macro_txt of
                 Inl e \<Rightarrow> Inl (ReqParseError (format_err self line_n line e))
               | Inr u \<Rightarrow>
                   (case parse_macros macro_txt of
                      Inl e \<Rightarrow> Inl (ReqParseError (format_err self line_n line e))
                    | Inr macros \<Rightarrow> Inr macros)))"

text \<open>
  \<open>read\<close>: the loop over the lines of the file. \<open>pvs\<close> is the list built so far, and
  \<open>sub_read\<close> reads an included file. The result is the exception raised (\<open>Inl\<close>) or
  the list of PV names; \<open>None\<close> means that includes are nested deeper than the bound
  given to \<open>read\<close>, which counts the files on the include path.
\<close>

type_synonym read_result = "(req_error + string list) option"

fun read_lines ::
  "os_env \<Rightarrow> (reqfile \<Rightarrow> read_result) \<Rightarrow> reqfile \<Rightarrow> string list \<Rightarrow> string list \<Rightarrow> read_result" where
  "read_lines os sub_read self [] pvs = Some (Inr pvs)"
| "read_lines os sub_read self (raw # rest) pvs =
     (let line = strip raw;
          self = set_curr_line (rf_curr_line_n self + 1) (Some line) self;
          line_n = show_nat (rf_curr_line_n self)
      in if \<not> (startswith line ''#'' \<or> startswith line ''data{'' \<or> startswith line ''}''
                 \<or> startswith line ''!'') \<and> strip line \<noteq> []
         then
           (let pvname = macros_substitution (hd (split_max1 CHR '','' (rstrip line))) (rf_macros self)
            in case validate_macros_in_txt self pvname of
                 Inl e \<Rightarrow> Some (Inl (ReqParseError (format_err self line_n line e)))
               | Inr u \<Rightarrow> read_lines os sub_read self rest (pvs @ [pvname]))
         else if startswith line ''!'' then
           (let split_line = split_max1 CHR '','' (tl line)
            in case (if length split_line > 1 then include_macros self (split_line ! 1) else Inr []) of
                 Inl e \<Rightarrow> Some (Inl e)
               | Inr macros \<Rightarrow>
                   (let path = path_join os (dirname os (rf_path self)) (split_line ! 0)
                    in case check_looping os self path of
                         Some msg \<Rightarrow>
                           Some (Inl (ReqFileInfLoopError (format_err self line_n line msg)))
                       | None \<Rightarrow>
                           (case sub_read (SnapshotReqFile os path (Some self) macros []) of
                              None \<Rightarrow> None
                            | Some (Inl (IOError e)) \<Rightarrow>
                                Some (Inl (IOError (format_err self line line_n e)))
                            | Some (Inl e) \<Rightarrow> Some (Inl e)
                            | Some (Inr sub_pvs) \<Rightarrow>
                                read_lines os sub_read self rest (pvs @ sub_pvs))))
         else read_lines os sub_read self rest pvs)"

definition read_file :: "os_env \<Rightarrow> (reqfile \<Rightarrow> read_result) \<Rightarrow> reqfile \<Rightarrow> read_result" where
  "read_file os sub_read self =
     (case open_file os (rf_path self) of
        Inl e \<Rightarrow> Some (Inl (IOError e))
      | Inr lines \<Rightarrow> read_lines os sub_read (set_curr_line 0 (rf_curr_line self) self) lines [])"

primrec read :: "nat \<Rightarrow> os_env \<Rightarrow> reqfile \<Rightarrow> read_result" where
  "read 0 os self = None"
| "read (Suc depth) os self = read_file os (read depth os) self"


text \<open>The file itself and its includers up to the root, and the lines \<open>read\<close> treats as a
  PV name.\<close>

fun ancestor_chain :: "reqfile \<Rightarrow> reqfile list" where
  "ancestor_chain (ReqFile p parent m c t n l) =
     ReqFile p parent m c t n l # (case parent of None \<Rightarrow> [] | Some par \<Rightarrow> ancestor_chain par)"

definition plain_line :: "string \<Rightarrow> bool" where
  "plain_line line \<longleftrightarrow>
     \<not> (startswith line ''#'' \<or> startswith line ''data{'' \<or> startswith line ''}''
        \<or> startswith line ''!'') \<and> strip line \<noteq> []"

section \<open>Save files (parser.py, \<open>parse_from_save_file\<close>)\<close>

text \<open>
  What \<open>json.loads\<close> returns: \<open>None\<close>, a bool, an \<open>int\<close>, a \<open>float\<close> (the literals \<open>NaN\<close>,
  \<open>Infinity\<close> and \<open>-Infinity\<close> are accepted), a string, a list or a dict. \<open>ONdarray\<close> is an
  array \<open>numpy.asarray\<close> makes of a list.
\<close>

datatype pyobj =
    ONone | OBool bool | OInt int | OFloat f64 | OStr string
  | OList "pyobj list" | ODict "(string \<times> pyobj) list" | ONdarray "pyobj list"

text \<open>
  \<open>json.loads\<close> is a parameter \<open>json_loads\<close> of the model, with the three outcomes the
  call has: it returns the decoded value; it raises \<open>json.JSONDecodeError\<close>, the one
  exception the two \<open>except\<close> clauses of \<open>parse_from_save_file\<close> name; or it raises
  something else. The decoder does raise other exceptions: \<open>RecursionError\<close> for a
  literal nested too deeply (a hundred thousand opening brackets), and a plain
  \<open>ValueError\<close>, of which \<open>JSONDecodeError\<close> is a subclass, for an integer literal with
  more digits than the interpreter's limit for the conversion of a string to \<open>int\<close>.
  \<open>numpy.asarray\<close> is a parameter \<open>np_asarray\<close> too: it returns an array or raises,
  as some numpy releases do (\<open>ValueError\<close>) for a list of lists of unequal lengths. The
  call is outside the \<open>try\<close>.
\<close>

datatype uncaught_exception = RecursionError | PlainValueError

datatype loads_result = Decoded pyobj | JSONDecodeError | Raises uncaught_exception

text \<open>The local variables of \<open>parse_from_save_file\<close>; \<open>saved_pvs\<close> maps a PV name to
  its \<open>value\<close> entry, in insertion order.\<close>

record parse_state =
  saved_pvs :: "(string \<times> pyobj) list"
  meta_data :: pyobj
  err :: "string list"
  meta_loaded :: bool

definition decode_error :: "string \<Rightarrow> string" where
  "decode_error pvname = ''Value of '' @ [CHR 0x27] @ pvname @ [CHR 0x27] @ '' cannot be decoded. Will be ignored.''"

text \<open>The body of the \<open>elif\<close> branch: one line \<open>name,value-literal\<close>. An exception that
  is not caught ends the function; the local variables are lost with it.\<close>

definition parse_data_line ::
  "(string \<Rightarrow> loads_result) \<Rightarrow> (pyobj list \<Rightarrow> uncaught_exception + pyobj)
     \<Rightarrow> string \<Rightarrow> parse_state \<Rightarrow> uncaught_exception + parse_state" where
  "parse_data_line json_loads np_asarray line st =
     (let split_line = split_max1 CHR '','' (strip line);
          pvname = split_line ! 0
      in if length split_line > 1 then
           (case json_loads (split_line ! 1) of
              Raises e \<Rightarrow> Inl e
            | JSONDecodeError \<Rightarrow>
                Inr (st\<lparr>saved_pvs := AList.update pvname ONone (saved_pvs st),
                        err := err st @ [decode_error pvname]\<rparr>)
            | Decoded pv_value \<Rightarrow>
                (case pv_value of
                   OList xs \<Rightarrow>
                     (case np_asarray xs of
                        Inl e \<Rightarrow> Inl e
                      | Inr arr \<Rightarrow>
                          Inr (st\<lparr>saved_pvs := AList.update pvname arr (saved_pvs st)\<rparr>))
                 | _ \<Rightarrow> Inr (st\<lparr>saved_pvs := AList.update pvname pv_value (saved_pvs st)\<rparr>)))
         else Inr (st\<lparr>saved_pvs := AList.update pvname ONone (saved_pvs st)\<rparr>))"

text \<open>The loop \<open>for line in saved_file\<close>, on the lines the open file yields; with
  \<open>metadata_only\<close> it stops (\<open>break\<close>) after the metadata line.\<close>

fun parse_lines ::
  "(string \<Rightarrow> loads_result) \<Rightarrow> (pyobj list \<Rightarrow> uncaught_exception + pyobj)
     \<Rightarrow> bool \<Rightarrow> string list \<Rightarrow> parse_state \<Rightarrow> uncaught_exception + parse_state" where
  "parse_lines json_loads np_asarray metadata_only [] st = Inr st"
| "parse_lines json_loads np_asarray metadata_only (line # rest) st =
     (if startswith line ''#'' \<and> \<not> meta_loaded st then
        (case json_loads (tl line) of
           Raises e \<Rightarrow> Inl e
         | JSONDecodeError \<Rightarrow>
             (let st2 = st\<lparr>err := err st
                          @ [''Meta data could not be decoded. Must be in JSON format.''],
                        meta_loaded := True\<rparr>
              in if metadata_only then Inr st2
                 else parse_lines json_loads np_asarray metadata_only rest st2)
         | Decoded m \<Rightarrow>
             (let st2 = st\<lparr>meta_data := m, meta_loaded := True\<rparr>
              in if metadata_only then Inr st2
                 else parse_lines json_loads np_asarray metadata_only rest st2))
      else if \<not> metadata_only \<and> strip line \<noteq> [] \<and> \<not> startswith line ''#'' then
        (case parse_data_line json_loads np_asarray line st of
           Inl e \<Rightarrow> Inl e
         | Inr st1 \<Rightarrow> parse_lines json_loads np_asarray metadata_only rest st1)
      else parse_lines json_loads np_asarray metadata_only rest st)"

text \<open>The function, on the lines of the opened file: the three values it returns, or
  the exception that leaves it.\<close>

definition parse_from_save_file ::
  "(string \<Rightarrow> loads_result) \<Rightarrow> (pyobj list \<Rightarrow> uncaught_exception + pyobj)
     \<Rightarrow> string list \<Rightarrow> bool
     \<Rightarrow> uncaught_exception + (string \<times> pyobj) list \<times> pyobj \<times> string list" where
  "parse_from_save_file json_loads np_asarray lines metadata_only =
     (case parse_lines json_loads np_asarray metadata_only lines
             \<lparr>saved_pvs = [], meta_data = ODict [], err = [], meta_loaded = False\<rparr> of
        Inl e \<Rightarrow> Inl e
      | Inr st \<Rightarrow>
          Inr (saved_pvs st, meta_data st,
               if \<not> meta_loaded st then ''No meta data in the file.'' # err st else err st))"

text \<open>
  For stating properties: the lines the full parse treats as data, the PV name of a
  line, whether the line has a value literal, and that literal.
\<close>

definition is_data_line :: "string \<Rightarrow> bool" where
  "is_data_line line \<longleftrightarrow> strip line \<noteq> [] \<and> \<not> startswith line ''#''"

definition line_name :: "string \<Rightarrow> string" where
  "line_name line = split_max1 CHR '','' (strip line) ! 0"

definition has_literal :: "string \<Rightarrow> bool" where
  "has_literal line \<longleftrightarrow> length (split_max1 CHR '','' (strip line)) > 1"

definition line_literal :: "string \<Rightarrow> string" where
  "line_literal line = split_max1 CHR '','' (strip line) ! 1"

section \<open>Properties of the worker registry\<close>

lemma bw_step_workers: "bw_workers (snd (bw_step x s)) = bw_workers s"
  by (cases x) (simp_all add: suspend_def resume_def Let_def)

lemma bw_step_count_nonneg: "0 \<le> bw_count s \<Longrightarrow> 0 \<le> bw_count (snd (bw_step x s))"
  by (cases x) (simp_all add: suspend_def resume_def Let_def)

lemma bw_run_workers: "bw_workers (bw_run xs s) = bw_workers s"
  by (induction xs arbitrary: s) (simp_all add: bw_step_workers)

lemma bw_run_count_nonneg: "0 \<le> bw_count s \<Longrightarrow> 0 \<le> bw_count (bw_run xs s)"
  by (induction xs arbitrary: s) (simp_all add: bw_step_count_nonneg)

lemma bw_step_calls:
  assumes "0 \<le> bw_count s"
  shows "fst (bw_step x s) =
     (if bw_count s = 0 \<and> bw_count (snd (bw_step x s)) = 1
        then map Worker_suspend (bw_workers s)
      else if bw_count s = 1 \<and> bw_count (snd (bw_step x s)) = 0
        then map Worker_resume (bw_workers s)
      else [])"
  using assms by (cases x) (auto simp add: suspend_def resume_def Let_def)

text \<open>
  Claim C8. Take any list \<open>ws\<close> of registered workers and any sequence \<open>pre\<close> of
  \<open>suspend()\<close>/\<open>resume()\<close> calls made on a registry whose counter started at 0, and let
  \<open>x\<close> be the next call. Then the counter is non-negative before and after \<open>x\<close>; the
  calls \<open>x\<close> makes on the workers are \<open>suspend()\<close> on every registered worker when the
  counter goes from 0 to 1, \<open>resume()\<close> on every registered worker when it goes from 1
  to 0, and none at all otherwise; and \<open>resume()\<close> at counter 0 leaves the registry as
  it was.
\<close>

theorem suspend_resume_counter_transitions:
  fixes ws :: "'w list" and pre :: "bw_op list" and x :: bw_op
  defines "s \<equiv> bw_run pre \<lparr>bw_workers = ws, bw_count = 0\<rparr>"
  shows "0 \<le> bw_count s \<and> 0 \<le> bw_count (snd (bw_step x s))
       \<and> bw_workers s = ws \<and> bw_workers (snd (bw_step x s)) = ws
       \<and> fst (bw_step x s) =
           (if bw_count s = 0 \<and> bw_count (snd (bw_step x s)) = 1 then map Worker_suspend ws
            else if bw_count s = 1 \<and> bw_count (snd (bw_step x s)) = 0 then map Worker_resume ws
            else [])
       \<and> (bw_count s = 0 \<longrightarrow> bw_step Resume s = ([], s))
       \<and> (bw_count (snd (bw_step x s)) = 1 \<and> bw_count s = 0 \<longleftrightarrow> x = Suspend \<and> bw_count s = 0)
       \<and> (bw_count (snd (bw_step x s)) = 0 \<and> bw_count s = 1 \<longleftrightarrow> x = Resume \<and> bw_count s = 1)"
proof -
  have nn: "0 \<le> bw_count s"
    unfolding s_def by (rule bw_run_count_nonneg) simp
  have ws: "bw_workers s = ws"
    unfolding s_def by (simp add: bw_run_workers)
  have calls: "fst (bw_step x s) =
           (if bw_count s = 0 \<and> bw_count (snd (bw_step x s)) = 1 then map Worker_suspend ws
            else if bw_count s = 1 \<and> bw_count (snd (bw_step x s)) = 0 then map Worker_resume ws
            else [])"
    using bw_step_calls [OF nn, of x] ws by simp
  have r0: "bw_count s = 0 \<longrightarrow> bw_step Resume s = ([], s)"
    by (simp add: resume_def)
  have up: "bw_count (snd (bw_step x s)) = 1 \<and> bw_count s = 0 \<longleftrightarrow> x = Suspend \<and> bw_count s = 0"
    by (cases x) (auto simp add: suspend_def resume_def Let_def)
  have down: "bw_count (snd (bw_step x s)) = 0 \<and> bw_count s = 1 \<longleftrightarrow> x = Resume \<and> bw_count s = 1"
    by (cases x) (auto simp add: suspend_def resume_def Let_def)
  show ?thesis
    using nn ws calls r0 up down bw_step_count_nonneg [OF nn, of x] bw_step_workers [of x s]
    by simp
qed

theorem suspend_resume_counter_transitions_witness:
  "bw_step Suspend (bw_run [Suspend, Resume] \<lparr>bw_workers = [''updater''], bw_count = 0\<rparr>)
     = ([Worker_suspend ''updater''], \<lparr>bw_workers = [''updater''], bw_count = 1\<rparr>)
   \<and> bw_step Resume (bw_run [Suspend, Suspend, Resume] \<lparr>bw_workers = [''updater''], bw_count = 0\<rparr>)
     = ([Worker_resume ''updater''], \<lparr>bw_workers = [''updater''], bw_count = 0\<rparr>)
   \<and> bw_step Resume (bw_run [] \<lparr>bw_workers = [''updater''], bw_count = 0\<rparr>)
     = ([], \<lparr>bw_workers = [''updater''], bw_count = 0\<rparr>)
   \<and> bw_step Suspend (bw_run [Suspend] \<lparr>bw_workers = [''updater''], bw_count = 0\<rparr>)
     = ([], \<lparr>bw_workers = [''updater''], bw_count = 2\<rparr>)"
  using suspend_resume_counter_transitions [of "[Suspend, Resume]" "[''updater'']" Suspend]
  by (simp add: suspend_def resume_def Let_def)

section \<open>Properties of floating-point rounding\<close>

lemma ilog2_bounds: "0 < a \<Longrightarrow> 2 powi ilog2 a \<le> a \<and> a < 2 powi (ilog2 a + 1)"
proof (induction a rule: ilog2.induct)
  case (1 a)
  show ?case
  proof (cases "2 \<le> a")
    case True
    then have h: "ilog2 a = ilog2 (a / 2) + 1" by (simp add: ilog2.simps [of a])
    have "0 < a / 2" using True by simp
    from "1.IH"(1) [OF True this]
    have "2 powi ilog2 (a / 2) \<le> a / 2" "a / 2 < 2 powi (ilog2 (a / 2) + 1)" by simp_all
    then show ?thesis unfolding h by (simp add: power_int_add)
  next
    case False
    show ?thesis
    proof (cases "a < 1")
      case True
      then have h: "ilog2 a = ilog2 (2 * a) - 1" using False "1.prems" by (simp add: ilog2.simps [of a])
      have c: "0 < a \<and> a < 1" using True "1.prems" by simp
      have "0 < 2 * a" using "1.prems" by simp
      from "1.IH"(2) [OF False c this]
      have "2 powi ilog2 (2 * a) \<le> 2 * a" "2 * a < 2 powi (ilog2 (2 * a) + 1)" by simp_all
      then show ?thesis unfolding h by (simp add: power_int_add power_int_diff)
    next
      case ge: False
      then have "ilog2 a = 0" using False by (simp add: ilog2.simps [of a])
      then show ?thesis using False ge by simp
    qed
  qed
qed

lemma round_half_even_of_int [simp]: "round_half_even (of_int k) = k"
  by (simp add: round_half_even_def)

lemma round_half_even_bounds: "\<lfloor>x\<rfloor> \<le> round_half_even x \<and> round_half_even x \<le> \<lfloor>x\<rfloor> + 1"
  by (simp add: round_half_even_def Let_def)

lemma round_half_even_mono: "x \<le> y \<Longrightarrow> round_half_even x \<le> round_half_even y"
proof -
  assume xy: "x \<le> y"
  have f: "\<lfloor>x\<rfloor> \<le> \<lfloor>y\<rfloor>" using xy by (rule floor_mono)
  show ?thesis
  proof (cases "\<lfloor>x\<rfloor> = \<lfloor>y\<rfloor>")
    case True
    then show ?thesis using xy by (auto simp add: round_half_even_def Let_def)
  next
    case False
    then have "\<lfloor>x\<rfloor> + 1 \<le> \<lfloor>y\<rfloor>" using f by simp
    then show ?thesis
      using round_half_even_bounds [of x] round_half_even_bounds [of y] by linarith
  qed
qed

lemma round_half_even_nonneg: "0 \<le> x \<Longrightarrow> 0 \<le> round_half_even x"
  using round_half_even_mono [of 0 x] round_half_even_of_int [of 0] by simp

lemma ilog2_mono: "0 < a \<Longrightarrow> a \<le> b \<Longrightarrow> ilog2 a \<le> ilog2 b"
proof -
  assume a: "0 < a" and ab: "a \<le> b"
  have "2 powi ilog2 a \<le> a" using ilog2_bounds [OF a] by simp
  also have "a \<le> b" by (rule ab)
  also have "b < 2 powi (ilog2 b + 1)" using ilog2_bounds [of b] a ab by simp
  finally have "(2::real) powi ilog2 a < 2 powi (ilog2 b + 1)" .
  then have "ilog2 a < ilog2 b + 1"
    by (metis linorder_not_less one_le_numeral power_int_increasing)
  then show ?thesis by simp
qed

lemma ulp_exp_mono: "0 < a \<Longrightarrow> a \<le> b \<Longrightarrow> ulp_exp a \<le> ulp_exp b"
  using ilog2_mono [of a b] by (simp add: ulp_exp_def)

lemma round_pos_nonneg: "0 \<le> a \<Longrightarrow> 0 \<le> round_pos a"
  by (simp add: round_pos_def round_half_even_nonneg)

lemma round_pos_le:
  assumes a: "0 < a" and at: "a \<le> t" and t: "round_pos t = t"
  shows "round_pos a \<le> t"
proof -
  let ?ea = "ulp_exp a" and ?et = "ulp_exp t"
  let ?N = "round_half_even (t / 2 powi ?et)"
  have e: "?ea \<le> ?et" using a at by (rule ulp_exp_mono)
  have tN: "t = of_int ?N * 2 powi ?et" using t by (simp add: round_pos_def)
  have "(2::real) powi ?et = 2 powi (?et - ?ea) * 2 powi ?ea"
    by (simp flip: power_int_add)
  also have "(2::real) powi (?et - ?ea) = of_int (2 ^ nat (?et - ?ea))"
    using e by (simp add: power_int_def)
  finally have "t = of_int (?N * 2 ^ nat (?et - ?ea)) * 2 powi ?ea"
    using tN by simp
  then have tq: "t / 2 powi ?ea = of_int (?N * 2 ^ nat (?et - ?ea))"
    by (simp add: field_simps)
  have "a / 2 powi ?ea \<le> t / 2 powi ?ea"
    using at by (simp add: divide_right_mono)
  then have "round_half_even (a / 2 powi ?ea) \<le> round_half_even (t / 2 powi ?ea)"
    by (rule round_half_even_mono)
  also have "\<dots> = ?N * 2 ^ nat (?et - ?ea)"
    unfolding tq by (simp only: round_half_even_of_int)
  finally have "real_of_int (round_half_even (a / 2 powi ?ea)) \<le> t / 2 powi ?ea"
    unfolding tq by linarith
  then have "real_of_int (round_half_even (a / 2 powi ?ea)) * 2 powi ?ea \<le> t"
    by (simp add: field_simps)
  then show ?thesis by (simp add: round_pos_def)
qed

lemma round_f64_Finite_pos:
  assumes "0 < t" "round_f64 t = Finite t"
  shows "round_pos t = t" "ilog2 t < 1024" "t < 2 ^ 1024"
proof -
  have c: "\<not> (1024 \<le> ilog2 \<bar>t\<bar> \<or> 2 ^ 1024 \<le> round_pos \<bar>t\<bar>)"
    using assms by (auto simp add: round_f64_def split: if_splits)
  then have "sgn t * round_pos \<bar>t\<bar> = t"
    using assms by (simp add: round_f64_def)
  then show r: "round_pos t = t" using assms(1) by simp
  show "ilog2 t < 1024" using c assms(1) by simp
  show "t < 2 ^ 1024" using c assms(1) r by simp
qed

lemma round_f64_le:
  assumes a: "0 \<le> a" and at: "a \<le> t" and t: "round_f64 t = Finite t"
  shows "\<exists>r. round_f64 a = Finite r \<and> 0 \<le> r \<and> r \<le> t"
proof (cases "a = 0")
  case True
  then show ?thesis using a at by (simp add: round_f64_def)
next
  case False
  then have a0: "0 < a" using a by simp
  then have t0: "0 < t" using at by simp
  note ft = round_f64_Finite_pos [OF t0 t]
  have r: "round_pos a \<le> t" using a0 at ft(1) by (rule round_pos_le)
  have "ilog2 a \<le> ilog2 t" using a0 at by (rule ilog2_mono)
  then have e: "\<not> 1024 \<le> ilog2 \<bar>a\<bar>" using ft(2) a0 by simp
  have o: "\<not> 2 ^ 1024 \<le> round_pos \<bar>a\<bar>" using r ft(3) a0 by simp
  have "round_f64 a = Finite (round_pos a)"
    using a0 e o by (simp add: round_f64_def)
  then show ?thesis using r round_pos_nonneg [OF a] by simp
qed

lemma round_f64_nonneg:
  "0 \<le> t \<Longrightarrow> round_f64 t = PosInf \<or> (\<exists>r. round_f64 t = Finite r \<and> 0 \<le> r)"
  by (auto simp add: round_f64_def round_pos_nonneg)

lemma round_f64_minus: "round_f64 (- x) = fneg (round_f64 x)"
  by (simp add: round_f64_def)

lemma round_f64_abs_le:
  assumes "\<bar>d\<bar> \<le> t" "round_f64 t = Finite t"
  shows "\<exists>r. fabs (round_f64 d) = Finite r \<and> r \<le> t"
proof (cases "0 \<le> d")
  case True
  then obtain r where "round_f64 d = Finite r" "0 \<le> r" "r \<le> t"
    using round_f64_le [of d t] assms by auto
  then show ?thesis by simp
next
  case False
  then have "0 \<le> - d" "- d \<le> t" using assms(1) by simp_all
  then obtain r where r: "round_f64 (- d) = Finite r" "0 \<le> r" "r \<le> t"
    using round_f64_le [of "- d" t] assms(2) by auto
  have "round_f64 d = fneg (round_f64 (- d))"
    using round_f64_minus [of "- d"] by simp
  then show ?thesis using r by simp
qed

lemmas f64_eval = round_f64_def round_pos_def ulp_exp_def round_half_even_def Let_def ilog2.simps

lemma round_f64_0 [simp]: "round_f64 0 = Finite 0"
  by (simp add: round_f64_def)

lemma round_f64_not_NaN [simp]: "round_f64 x \<noteq> NaN"
  by (simp add: round_f64_def)

lemma fle_zero_round_nonneg: "0 \<le> t \<Longrightarrow> fle (Finite 0) (round_f64 t)"
  using round_f64_nonneg [of t] by auto

lemma tolerance_nonneg:
  assumes "0 \<le> t"
  shows "fle (Finite 0) (fadd (round_f64 t) (Finite 0))"
proof -
  from round_f64_nonneg [OF assms] show ?thesis
  proof
    assume "round_f64 t = PosInf"
    then show ?thesis by simp
  next
    assume "\<exists>r. round_f64 t = Finite r \<and> 0 \<le> r"
    then obtain r where r: "round_f64 t = Finite r" "0 \<le> r" by blast
    then show ?thesis using fle_zero_round_nonneg [of r] by simp
  qed
qed

section \<open>Properties of the comparator\<close>

lemma np_isclose_self:
  assumes "0 \<le> t" "x \<noteq> NaN"
  shows "np_isclose x x t 0"
proof (cases "isfinite (to_f64 x)")
  case True
  then obtain r where r: "to_f64 x = Finite r" by (cases "to_f64 x") simp_all
  show ?thesis
    using tolerance_nonneg [OF assms(1)]
    by (simp add: np_isclose_def Let_def r fsub_def)
next
  case False
  have "to_f64 x \<noteq> NaN" using assms(2) by (cases x) simp_all
  then have "feq (to_f64 x) (to_f64 x)" using False by (cases "to_f64 x") simp_all
  then show ?thesis using False by (simp add: np_isclose_def Let_def)
qed

lemma np_isclose_float64:
  assumes "round_f64 v1 = Finite v1" "round_f64 v2 = Finite v2" "round_f64 t = Finite t"
  shows "np_isclose (Finite v1) (Finite v2) t 0 = fle (fabs (round_f64 (v1 - v2))) (Finite t)"
  using assms by (simp add: np_isclose_def Let_def fsub_def)

lemma normalize_operand_None: "normalize_operand v = PNone \<longleftrightarrow> v = PNone \<or> np_size v = 0"
  by (cases v) (auto simp add: normalize_operand_def)

lemma compare_is_array:
  "compare v1 v2 True t = compare (normalize_operand v1) (normalize_operand v2) False t"
  by (simp add: compare_def)

lemma compare_absent:
  "normalize_operand v1 = PNone \<or> normalize_operand v2 = PNone \<Longrightarrow>
     compare v1 v2 True t = Inr (normalize_operand v1 = PNone \<and> normalize_operand v2 = PNone)"
  by (auto simp add: compare_def)

lemma compare_scalars:
  "compare (PNum x) (PNum y) False t = Inr (np_isclose x y t 0)"
  by (simp add: compare_def np_allclose_def np_broadcast_def)

lemma compare_scalars_nonfinite:
  "\<not> isfinite (to_f64 x) \<or> \<not> isfinite (to_f64 y) \<Longrightarrow>
     compare (PNum x) (PNum y) False t = Inr (feq (to_f64 x) (to_f64 y))"
  by (auto simp add: compare_scalars np_isclose_def Let_def)

text \<open>
  Two numbers that are both finite are compared by the rounded difference: the
  subtraction is a binary64 operation, and an \<open>int\<close> is rounded before it. So a pair
  further apart than the tolerance can compare equal: the \<open>float\<close>s \<open>1.0\<close> and \<open>-2 ^ -60\<close>
  at tolerance \<open>1.0\<close> (their difference rounds to \<open>1.0\<close>), and the \<open>int\<close>s \<open>2 ^ 53 + 1\<close> and
  \<open>2 ^ 53\<close> at tolerance \<open>0.5\<close> (both are the same \<open>float64\<close>).
\<close>

lemma compare_int_rounding:
  "(1/2 :: real) < \<bar>(2 ^ 53 + 1) - 2 ^ 53\<bar>
   \<and> compare (PNum (Finite (2 ^ 53 + 1))) (PNum (Finite (2 ^ 53))) False (1/2) = Inr True"
  by (simp add: compare_scalars np_isclose_def fsub_def f64_eval)

text \<open>
  Claim C2 does not hold as stated. \<open>1.0\<close> and \<open>-2 ^ -60\<close> are binary64 values and differ
  by more than \<open>1\<close>, yet \<open>compare(1.0, -2 ** -60, False, 1.0)\<close> returns true: the
  difference \<open>1 + 2 ^ -60\<close> is computed in binary64, where it is \<open>1.0\<close>.
\<close>

theorem compare_scalar_rounding_counterexample:
  "round_f64 1 = Finite 1
   \<and> round_f64 (- (1 / 2 ^ 60)) = Finite (- (1 / 2 ^ 60))
   \<and> (1::real) < \<bar>1 - (- (1 / 2 ^ 60))\<bar>
   \<and> compare (PNum (Finite 1)) (PNum (Finite (- (1 / 2 ^ 60)))) False 1 = Inr True"
  by (simp add: compare_scalars np_isclose_def fsub_def f64_eval)

text \<open>
  Claim C2, amended. For all \<open>float\<close> values \<open>v1\<close>, \<open>v2\<close> that are finite and every finite
  \<open>float\<close> tolerance \<open>t \<ge> 0\<close>, \<open>compare(v1, v2, False, t)\<close> returns whether the binary64
  difference of \<open>v1\<close> and \<open>v2\<close> is at most \<open>t\<close> in absolute value. It returns true whenever
  \<open>|v1 - v2| \<le> t\<close>; it returns false when \<open>|v1 - v2| > t\<close> and the difference \<open>v1 - v2\<close> is
  itself a binary64 value (the subtraction is exact).
\<close>

theorem compare_scalar_float_tolerance:
  assumes "round_f64 v1 = Finite v1" and "round_f64 v2 = Finite v2"
    and "round_f64 t = Finite t" and "0 \<le> t"
  shows "compare (PNum (Finite v1)) (PNum (Finite v2)) False t
           = Inr (fle (fabs (round_f64 (v1 - v2))) (Finite t))
       \<and> (\<bar>v1 - v2\<bar> \<le> t \<longrightarrow>
            compare (PNum (Finite v1)) (PNum (Finite v2)) False t = Inr True)
       \<and> (\<bar>v1 - v2\<bar> > t \<and> round_f64 (v1 - v2) = Finite (v1 - v2) \<longrightarrow>
            compare (PNum (Finite v1)) (PNum (Finite v2)) False t = Inr False)"
proof -
  have c: "compare (PNum (Finite v1)) (PNum (Finite v2)) False t
           = Inr (fle (fabs (round_f64 (v1 - v2))) (Finite t))"
    using np_isclose_float64 [OF assms(1) assms(2) assms(3)] by (simp add: compare_scalars)
  have le: "fle (fabs (round_f64 (v1 - v2))) (Finite t)" if h: "\<bar>v1 - v2\<bar> \<le> t"
  proof -
    obtain r where "fabs (round_f64 (v1 - v2)) = Finite r" "r \<le> t"
      using round_f64_abs_le [OF h assms(3)] by blast
    then show ?thesis by simp
  qed
  have gt: "\<not> fle (fabs (round_f64 (v1 - v2))) (Finite t)"
    if "\<bar>v1 - v2\<bar> > t" "round_f64 (v1 - v2) = Finite (v1 - v2)"
    using that by simp
  show ?thesis using c le gt by simp
qed

theorem compare_scalar_float_tolerance_witness:
  "compare (PNum (Finite (3/2))) (PNum (Finite 1)) False (1/2) = Inr True
   \<and> compare (PNum (Finite 2)) (PNum (Finite 1)) False (1/2) = Inr False"
proof -
  have a: "round_f64 (3/2) = Finite (3/2)" by (simp add: f64_eval)
  have b: "round_f64 1 = Finite 1" by (simp add: f64_eval)
  have c: "round_f64 (1/2) = Finite (1/2)" by (simp add: f64_eval)
  have d: "round_f64 2 = Finite 2" by (simp add: f64_eval)
  have e: "round_f64 (2 - 1) = Finite (2 - 1)" by (simp add: f64_eval)
  have t: "(0::real) \<le> 1/2" by simp
  have "compare (PNum (Finite (3/2))) (PNum (Finite 1)) False (1/2) = Inr True"
    using compare_scalar_float_tolerance [OF a b c t, THEN conjunct2, THEN conjunct1] by simp
  moreover have "compare (PNum (Finite 2)) (PNum (Finite 1)) False (1/2) = Inr False"
    using compare_scalar_float_tolerance [OF d b c t, THEN conjunct2, THEN conjunct2] e by simp
  ultimately show ?thesis by simp
qed

text \<open>
  Claim C3 does not hold for every scalar: the one-element array \<open>[nan]\<close> does not compare
  equal to the scalar \<open>nan\<close> (\<open>numpy.allclose\<close> is called with \<open>equal_nan=False\<close>).
\<close>

theorem compare_array_nan_counterexample:
  "compare (PNumArr [NaN]) (PNum NaN) True 0 = Inr False"
  by (simp add: compare_def normalize_operand_def np_allclose_def np_broadcast_def
        np_isclose_def)

text \<open>
  Claim C3, amended. With \<open>is_array\<close> true, \<open>compare\<close> runs on the normalised operands: a
  scalar number or string becomes a one-element array, an array without elements becomes
  \<open>None\<close>. For every number \<open>x\<close> other than \<open>nan\<close> (and a tolerance that is not negative) and
  for every string, the one-element array of \<open>x\<close> and the scalar \<open>x\<close> compare equal, in
  either order. An empty array compares equal to exactly \<open>None\<close> and the empty arrays,
  and not to the number zero. Whenever a normalised operand is \<open>None\<close>, the result is
  true if and only if both are.
\<close>

theorem compare_array_normalisation:
  shows "normalize_operand (PNum x) = PNumArr [x] \<and> normalize_operand (PStr s) = PStrArr [s]
       \<and> (np_size e = 0 \<longrightarrow> normalize_operand e = PNone)
       \<and> compare v1 v2 True t = compare (normalize_operand v1) (normalize_operand v2) False t
       \<and> (0 \<le> t \<and> x \<noteq> NaN \<longrightarrow> compare (PNumArr [x]) (PNum x) True t = Inr True
                  \<and> compare (PNum x) (PNumArr [x]) True t = Inr True)
       \<and> compare (PStrArr [s]) (PStr s) True t = Inr True
       \<and> compare (PStr s) (PStrArr [s]) True t = Inr True
       \<and> (np_size e = 0 \<longrightarrow>
            compare e v True t = Inr (v = PNone \<or> np_size v = 0)
          \<and> compare v e True t = Inr (v = PNone \<or> np_size v = 0)
          \<and> compare e (PNum (Finite 0)) True t = Inr False
          \<and> compare (PNum (Finite 0)) e True t = Inr False)
       \<and> (normalize_operand v1 = PNone \<or> normalize_operand v2 = PNone \<longrightarrow>
            compare v1 v2 True t
              = Inr (normalize_operand v1 = PNone \<and> normalize_operand v2 = PNone))"
proof -
  have n1: "normalize_operand (PNum x) = PNumArr [x]" "normalize_operand (PStr s) = PStrArr [s]"
    by (simp_all add: normalize_operand_def)
  have n0: "np_size e = 0 \<longrightarrow> normalize_operand e = PNone"
    by (simp add: normalize_operand_None)
  have one: "0 \<le> t \<and> x \<noteq> NaN \<longrightarrow> compare (PNumArr [x]) (PNum x) True t = Inr True
                  \<and> compare (PNum x) (PNumArr [x]) True t = Inr True"
    using np_isclose_self [of t x]
    by (simp add: compare_def normalize_operand_def np_allclose_def np_broadcast_def)
  have str: "compare (PStrArr [s]) (PStr s) True t = Inr True"
            "compare (PStr s) (PStrArr [s]) True t = Inr True"
    by (simp_all add: compare_def normalize_operand_def np_allclose_def np_array_equal_def)
  have empty: "np_size e = 0 \<longrightarrow>
            compare e v True t = Inr (v = PNone \<or> np_size v = 0)
          \<and> compare v e True t = Inr (v = PNone \<or> np_size v = 0)
          \<and> compare e (PNum (Finite 0)) True t = Inr False
          \<and> compare (PNum (Finite 0)) e True t = Inr False"
  proof
    assume e: "np_size e = 0"
    then have ne: "normalize_operand e = PNone"
      by (simp add: normalize_operand_None)
    have z: "normalize_operand (PNum (Finite 0)) \<noteq> PNone"
      by (simp add: normalize_operand_def)
    show "compare e v True t = Inr (v = PNone \<or> np_size v = 0)
          \<and> compare v e True t = Inr (v = PNone \<or> np_size v = 0)
          \<and> compare e (PNum (Finite 0)) True t = Inr False
          \<and> compare (PNum (Finite 0)) e True t = Inr False"
      using ne z compare_absent [of e v t] compare_absent [of v e t]
        compare_absent [of e "PNum (Finite 0)" t] compare_absent [of "PNum (Finite 0)" e t]
      by (simp add: normalize_operand_None)
  qed
  have absent: "normalize_operand v1 = PNone \<or> normalize_operand v2 = PNone \<longrightarrow>
            compare v1 v2 True t
              = Inr (normalize_operand v1 = PNone \<and> normalize_operand v2 = PNone)"
    using compare_absent [of v1 v2 t] by blast
  show ?thesis
    using n1 n0 one str empty absent compare_is_array [of v1 v2 t] by blast
qed

theorem compare_array_normalisation_witness:
  "compare (PNumArr [Finite (5/2)]) (PNum (Finite (5/2))) True 0 = Inr True
   \<and> compare (PNumArr [PosInf]) (PNum PosInf) True 0 = Inr True
   \<and> compare (PStrArr [''on'']) (PStr ''on'') True 0 = Inr True
   \<and> compare (PNumArr []) (PNum (Finite 0)) True 0 = Inr False
   \<and> compare (PNumArr []) (PStrArr []) True 0 = Inr True
   \<and> compare (PNumArr []) PNone True 0 = Inr True
   \<and> compare PNone (PNumArr [Finite 1]) True 0 = Inr False
   \<and> normalize_operand (PNumArr []) = PNone"
  using compare_array_normalisation [of "Finite (5/2)" "''on''" "PNumArr []" "PNumArr []" "PStrArr []" 0 PNone]
    compare_array_normalisation [of PosInf "''on''" "PNumArr []" PNone "PNumArr [Finite 1]" 0 "PNum (Finite 0)"]
  by (simp add: normalize_operand_def compare_def)

section \<open>Properties of the scheduler's collection step\<close>

lemma get_complete_success:
  "pv_connected pv \<Longrightarrow>
     get_complete (Completed v) wait pv
       = (v, pv\<lparr>pvget_completer := False, last_value := v\<rparr>, [CaGetComplete])"
  by (simp add: get_complete_def)

lemma get_complete_failure:
  "\<not> pv_connected pv \<or> outcome = TimedOut \<or> outcome = CaException \<Longrightarrow>
     fst (get_complete outcome wait pv) = PNone \<and> fst (snd (get_complete outcome wait pv)) = pv"
  by (cases outcome) (auto simp add: get_complete_def)

lemma get_start_frame:
  "last_value (get_start r pv) = last_value pv \<and> pv_connected (get_start r pv) = pv_connected pv"
  by (simp add: get_start_def)

lemma cycle_begin_frame:
  "last_value (cycle_begin ans pv) = last_value pv \<and> pv_connected (cycle_begin ans pv) = pv_connected pv"
  by (simp add: cycle_begin_def get_start_frame)

lemma run_cycle_nth:
  assumes "length answers = length pvs" "i < length pvs"
  shows "\<exists>vals. fst (run_cycle False answers pvs) = Some vals \<and> length vals = length pvs
           \<and> vals ! i = fst (get_complete (ans_complete (answers ! i)) False
                               (cycle_begin (answers ! i) (pvs ! i)))"
    and "snd (run_cycle False answers pvs) ! i
           = fst (snd (get_complete (ans_complete (answers ! i)) False
                         (cycle_begin (answers ! i) (pvs ! i))))"
  using assms
  by (simp_all add: run_cycle_def cycle_collect_def Let_def split_def)

text \<open>
  Claim C9. \<open>_get_complete\<close> stores a value in the entry only when the channel is
  connected and the read completed; when the channel is disconnected, the read timed out
  or the client raised, it returns \<open>None\<close> and leaves the entry as it was. In a pass of
  the scheduler over entries \<open>pvs\<close> the value list has one element per entry, and for
  entry \<open>i\<close> it holds the completed value (then also the cached value) or \<open>None\<close>
  (then the cached value is the one from before the pass).
\<close>

theorem scheduler_collect:
  "(pv_connected pv \<longrightarrow>
      get_complete (Completed v) wait pv
        = (v, pv\<lparr>pvget_completer := False, last_value := v\<rparr>, [CaGetComplete]))
   \<and> (\<not> pv_connected pv \<or> outcome = TimedOut \<or> outcome = CaException \<longrightarrow>
        fst (get_complete outcome wait pv) = PNone
      \<and> fst (snd (get_complete outcome wait pv)) = pv)
   \<and> (length answers = length pvs \<and> i < length pvs \<longrightarrow>
        (\<exists>vals. fst (run_cycle False answers pvs) = Some vals \<and> length vals = length pvs
          \<and> (case ans_complete (answers ! i) of
                Completed u \<Rightarrow>
                  if pv_connected (pvs ! i)
                  then vals ! i = u \<and> last_value (snd (run_cycle False answers pvs) ! i) = u
                  else vals ! i = PNone
                     \<and> last_value (snd (run_cycle False answers pvs) ! i) = last_value (pvs ! i)
              | _ \<Rightarrow> vals ! i = PNone
                     \<and> last_value (snd (run_cycle False answers pvs) ! i) = last_value (pvs ! i))))"
proof -
  have cyc: "\<exists>vals. fst (run_cycle False answers pvs) = Some vals \<and> length vals = length pvs
          \<and> (case ans_complete (answers ! i) of
                Completed u \<Rightarrow>
                  if pv_connected (pvs ! i)
                  then vals ! i = u \<and> last_value (snd (run_cycle False answers pvs) ! i) = u
                  else vals ! i = PNone
                     \<and> last_value (snd (run_cycle False answers pvs) ! i) = last_value (pvs ! i)
              | _ \<Rightarrow> vals ! i = PNone
                     \<and> last_value (snd (run_cycle False answers pvs) ! i) = last_value (pvs ! i))"
    if len: "length answers = length pvs" and i: "i < length pvs"
  proof -
    let ?b = "cycle_begin (answers ! i) (pvs ! i)"
    let ?r = "get_complete (ans_complete (answers ! i)) False ?b"
    obtain vals where v: "fst (run_cycle False answers pvs) = Some vals"
      and lvals: "length vals = length pvs" and vi: "vals ! i = fst ?r"
      using run_cycle_nth(1) [OF len i] by blast
    have pi: "snd (run_cycle False answers pvs) ! i = fst (snd ?r)"
      by (rule run_cycle_nth(2) [OF len i])
    have conn: "pv_connected ?b = pv_connected (pvs ! i)" and lv: "last_value ?b = last_value (pvs ! i)"
      by (simp_all add: cycle_begin_frame)
    have good: "fst ?r = u \<and> last_value (fst (snd ?r)) = u"
      if "pv_connected (pvs ! i)" "ans_complete (answers ! i) = Completed u" for u
      using that conn by (simp add: get_complete_success)
    have bad: "fst ?r = PNone \<and> last_value (fst (snd ?r)) = last_value (pvs ! i)"
      if "\<not> pv_connected (pvs ! i) \<or> ans_complete (answers ! i) = TimedOut
              \<or> ans_complete (answers ! i) = CaException"
    proof -
      have "\<not> pv_connected ?b \<or> ans_complete (answers ! i) = TimedOut
              \<or> ans_complete (answers ! i) = CaException"
        using that conn by simp
      from get_complete_failure [OF this] show ?thesis using lv by simp
    qed
    have "case ans_complete (answers ! i) of
                Completed u \<Rightarrow>
                  if pv_connected (pvs ! i)
                  then vals ! i = u \<and> last_value (snd (run_cycle False answers pvs) ! i) = u
                  else vals ! i = PNone
                     \<and> last_value (snd (run_cycle False answers pvs) ! i) = last_value (pvs ! i)
              | _ \<Rightarrow> vals ! i = PNone
                     \<and> last_value (snd (run_cycle False answers pvs) ! i) = last_value (pvs ! i)"
      using vi pi good bad by (cases "ans_complete (answers ! i)") auto
    then show ?thesis
      using v lvals by blast
  qed
  show ?thesis
    using get_complete_success [of pv v wait] get_complete_failure [of pv outcome wait] cyc
    by blast
qed

theorem scheduler_collect_witness:
  "run_cycle False
     [\<lparr>ans_ctrlvars = True, ans_start_raises = False, ans_complete = Completed (PNum (Finite 3))\<rparr>,
      \<lparr>ans_ctrlvars = True, ans_start_raises = False, ans_complete = TimedOut\<rparr>]
     [\<lparr>pv_name = ''A'', pv_connected = True, pv_read_access = True, pv_write_access = True,
       is_array = False, last_value = PNum (Finite 1), initialized = True, pvget_completer = False\<rparr>,
      \<lparr>pv_name = ''B'', pv_connected = True, pv_read_access = True, pv_write_access = True,
       is_array = False, last_value = PNum (Finite 2), initialized = True, pvget_completer = False\<rparr>]
   = (Some [PNum (Finite 3), PNone],
     [\<lparr>pv_name = ''A'', pv_connected = True, pv_read_access = True, pv_write_access = True,
       is_array = False, last_value = PNum (Finite 3), initialized = True, pvget_completer = False\<rparr>,
      \<lparr>pv_name = ''B'', pv_connected = True, pv_read_access = True, pv_write_access = True,
       is_array = False, last_value = PNum (Finite 2), initialized = True, pvget_completer = True\<rparr>])
   \<and> get_complete (Completed (PNum (Finite 3))) False
       \<lparr>pv_name = ''C'', pv_connected = False, pv_read_access = True, pv_write_access = True,
        is_array = False, last_value = PNum (Finite 1), initialized = True, pvget_completer = False\<rparr>
     = (PNone,
        \<lparr>pv_name = ''C'', pv_connected = False, pv_read_access = True, pv_write_access = True,
         is_array = False, last_value = PNum (Finite 1), initialized = True, pvget_completer = False\<rparr>,
        [])"
  using scheduler_collect [of
      "\<lparr>pv_name = ''C'', pv_connected = False, pv_read_access = True, pv_write_access = True,
        is_array = False, last_value = PNum (Finite 1), initialized = True, pvget_completer = False\<rparr>"
      "PNum (Finite 3)" False "Completed (PNum (Finite 3))"
      "[\<lparr>ans_ctrlvars = True, ans_start_raises = False, ans_complete = Completed (PNum (Finite 3))\<rparr>,
        \<lparr>ans_ctrlvars = True, ans_start_raises = False, ans_complete = TimedOut\<rparr>]"
      "[\<lparr>pv_name = ''A'', pv_connected = True, pv_read_access = True, pv_write_access = True,
         is_array = False, last_value = PNum (Finite 1), initialized = True, pvget_completer = False\<rparr>,
        \<lparr>pv_name = ''B'', pv_connected = True, pv_read_access = True, pv_write_access = True,
         is_array = False, last_value = PNum (Finite 2), initialized = True, pvget_completer = False\<rparr>]"
      1]
  by (simp add: run_cycle_def cycle_collect_def cycle_begin_def get_start_def get_complete_def)

section \<open>Properties of the PV cache entry\<close>

lemma get_value_initialized: "initialized pv \<Longrightarrow> get_value ch pv = (last_value pv, pv, [])"
  by (simp add: get_value_def)

lemma get_value_uninitialized_idle:
  "\<not> initialized pv \<Longrightarrow> \<not> pvget_completer pv \<Longrightarrow>
     get_value ch pv = (ch_get ch, pv\<lparr>initialized := True, last_value := ch_get ch\<rparr>, [CaGet])"
  by (simp add: get_value_def get_args_def)

lemma get_value_uninitialized_inflight:
  assumes "\<not> initialized pv" "pvget_completer pv"
  shows "get_value ch pv =
     (if pv_connected pv \<and> (\<exists>w. ch_complete ch = Completed w \<and> w \<noteq> PNone)
      then (ch_get ch, pv\<lparr>initialized := True, pvget_completer := False, last_value := ch_get ch\<rparr>,
            [CaGetComplete, CaGet])
      else (PNone,
            (case ch_complete ch of
               Completed w \<Rightarrow> if pv_connected pv
                  then pv\<lparr>initialized := True, pvget_completer := False, last_value := PNone\<rparr>
                  else pv\<lparr>initialized := True, last_value := PNone\<rparr>
             | _ \<Rightarrow> pv\<lparr>initialized := True, last_value := PNone\<rparr>),
            if pv_connected pv then [CaGetComplete] else []))"
  using assms
  by (cases "ch_complete ch") (auto simp add: get_value_def get_args_def get_complete_def)

text \<open>
  Claim C4 says the blocking fetch happens only if no cached value exists yet. The code
  tests \<open>_initialized\<close>, not the cached value: an entry the scheduler has given the value
  5 but whose extended metadata it has not fetched yet still makes the blocking fetch.
\<close>

theorem get_value_counterexample:
  "last_value \<lparr>pv_name = ''PV1'', pv_connected = True, pv_read_access = True,
       pv_write_access = True, is_array = False, last_value = PNum (Finite 5), initialized = False,
       pvget_completer = False\<rparr> = PNum (Finite 5)
   \<and> get_value \<lparr>ch_complete = TimedOut, ch_get = PNum (Finite 7), ch_put_rejects = (\<lambda>v. False)\<rparr>
       \<lparr>pv_name = ''PV1'', pv_connected = True, pv_read_access = True,
        pv_write_access = True, is_array = False, last_value = PNum (Finite 5), initialized = False,
        pvget_completer = False\<rparr>
     = (PNum (Finite 7),
        \<lparr>pv_name = ''PV1'', pv_connected = True, pv_read_access = True,
         pv_write_access = True, is_array = False, last_value = PNum (Finite 7), initialized = True,
         pvget_completer = False\<rparr>,
        [CaGet])"
  by (simp add: get_value_def get_args_def)

text \<open>
  Claim C4, amended. When \<open>initialized\<close> is true the value read returns the cached value,
  changes nothing and touches no network. When it is false, whether or not a cached value
  exists, the read sets \<open>initialized\<close>, caches what it returns, and makes at most one
  blocking fetch: exactly one unless a read started by the scheduler is in flight and its
  completion yields nothing (disconnected, timed out or \<open>None\<close>), in which case there is
  no fetch and the result is \<open>None\<close>.
\<close>

theorem get_value_fetch_iff_uninitialized:
  "(initialized pv \<longrightarrow> get_value ch pv = (last_value pv, pv, []))
   \<and> (\<not> initialized pv \<longrightarrow>
        initialized (fst (snd (get_value ch pv)))
      \<and> last_value (fst (snd (get_value ch pv))) = fst (get_value ch pv)
      \<and> count_list (snd (snd (get_value ch pv))) CaGet \<le> 1
      \<and> (CaGet \<in> set (snd (snd (get_value ch pv))) \<longrightarrow> fst (get_value ch pv) = ch_get ch)
      \<and> (CaGet \<notin> set (snd (snd (get_value ch pv))) \<longrightarrow> fst (get_value ch pv) = PNone)
      \<and> (CaGet \<in> set (snd (snd (get_value ch pv))) \<longleftrightarrow>
            \<not> pvget_completer pv
          \<or> pv_connected pv \<and> (\<exists>w. ch_complete ch = Completed w \<and> w \<noteq> PNone)))"
proof (cases "initialized pv")
  case True
  then show ?thesis by (simp add: get_value_initialized)
next
  case False
  show ?thesis
  proof (cases "pvget_completer pv")
    case idle: False
    show ?thesis
      using False idle by (simp add: get_value_uninitialized_idle)
  next
    case inflight: True
    show ?thesis
      using False inflight
      by (simp add: get_value_uninitialized_inflight split: ca_outcome.splits)
  qed
qed


theorem get_value_fetch_iff_uninitialized_witness:
  "get_value \<lparr>ch_complete = TimedOut, ch_get = PNum (Finite 7), ch_put_rejects = (\<lambda>v. False)\<rparr>
       \<lparr>pv_name = ''PV1'', pv_connected = True, pv_read_access = True,
        pv_write_access = True, is_array = False, last_value = PNum (Finite 5), initialized = True,
        pvget_completer = False\<rparr>
     = (PNum (Finite 5),
        \<lparr>pv_name = ''PV1'', pv_connected = True, pv_read_access = True,
         pv_write_access = True, is_array = False, last_value = PNum (Finite 5), initialized = True,
         pvget_completer = False\<rparr>,
        [])
   \<and> get_value \<lparr>ch_complete = TimedOut, ch_get = PNum (Finite 7), ch_put_rejects = (\<lambda>v. False)\<rparr>
       \<lparr>pv_name = ''PV1'', pv_connected = True, pv_read_access = True,
        pv_write_access = True, is_array = False, last_value = PNone, initialized = False,
        pvget_completer = True\<rparr>
     = (PNone,
        \<lparr>pv_name = ''PV1'', pv_connected = True, pv_read_access = True,
         pv_write_access = True, is_array = False, last_value = PNone, initialized = True,
         pvget_completer = True\<rparr>,
        [CaGetComplete])"
  using get_value_fetch_iff_uninitialized [of
      "\<lparr>pv_name = ''PV1'', pv_connected = True, pv_read_access = True,
        pv_write_access = True, is_array = False, last_value = PNum (Finite 5), initialized = True,
        pvget_completer = False\<rparr>"
      "\<lparr>ch_complete = TimedOut, ch_get = PNum (Finite 7), ch_put_rejects = (\<lambda>v. False)\<rparr>"]
  by (simp add: get_value_def get_args_def get_complete_def)

lemma restore_pv_no_access:
  "\<not> (pv_connected pv \<and> pv_write_access pv) \<Longrightarrow>
     restore_pv ch pv v callback = (Inr (), pv, if callback then [Callback Access_err] else [])"
  by (auto simp add: restore_pv_def)

lemma restore_pv_None:
  "pv_connected pv \<Longrightarrow> pv_write_access pv \<Longrightarrow>
     restore_pv ch pv PNone callback
       = (if callback then (Inr (), pv, [Callback No_value]) else (Inl TypeError, pv, []))"
  by (simp add: restore_pv_def)

lemma restore_pv_equal:
  "pv_connected pv \<Longrightarrow> pv_write_access pv \<Longrightarrow> v \<noteq> PNone \<Longrightarrow>
   compare_to_curr ch pv v = (Inr True, pv', evs) \<Longrightarrow>
     restore_pv ch pv v callback = (Inr (), pv', if callback then evs @ [Callback Equal] else evs)"
  by (simp add: restore_pv_def)

lemma restore_pv_differs:
  "pv_connected pv \<Longrightarrow> pv_write_access pv \<Longrightarrow> v \<noteq> PNone \<Longrightarrow>
   compare_to_curr ch pv v = (Inr False, pv', evs) \<Longrightarrow>
     restore_pv ch pv v callback =
       (if ch_put_rejects ch v
        then (if callback then (Inr (), pv', evs @ [Callback Type_err]) else (Inl TypeError, pv', evs))
        else (Inr (), pv', evs @ [Put v callback Ok]))"
  by (simp add: restore_pv_def)

lemma restore_pv_compare_raises:
  "pv_connected pv \<Longrightarrow> pv_write_access pv \<Longrightarrow> v \<noteq> PNone \<Longrightarrow>
   compare_to_curr ch pv v = (Inl e, pv', evs) \<Longrightarrow>
     restore_pv ch pv v callback = (Inl e, pv', evs)"
  by (simp add: restore_pv_def)

lemma compare_to_curr_events:
  "compare_to_curr ch pv v = (r, pv', evs) \<Longrightarrow> set evs \<subseteq> {CaGet, CaGetComplete}"
  by (cases "ch_complete ch")
     (auto simp add: compare_to_curr_def get_value_def get_args_def get_complete_def
           split: if_splits prod.splits)

text \<open>
  Claim C1. With a callback passed, \<open>restore_pv\<close> does what the claim says as long as the
  comparison returns (\<open>restore_pv_no_access\<close>, \<open>restore_pv_None\<close>, \<open>restore_pv_equal\<close>,
  \<open>restore_pv_differs\<close>). It does not when the comparison raises: for an array entry
  whose current value has three elements and a value to restore with two,
  \<open>numpy.allclose\<close> raises \<open>ValueError\<close>, which \<open>compare\<close> does not catch; the value
  differs from the current one, and yet no write is issued and no callback is called.
\<close>

theorem restore_pv_length_mismatch_raises:
  "restore_pv \<lparr>ch_complete = TimedOut, ch_get = PNumArr [Finite 1, Finite 2, Finite 3], ch_put_rejects = (\<lambda>v. False)\<rparr>
      \<lparr>pv_name = ''WF'', pv_connected = True, pv_read_access = True, pv_write_access = True,
       is_array = True, last_value = PNumArr [Finite 1, Finite 2, Finite 3], initialized = True,
       pvget_completer = False\<rparr>
      (PNumArr [Finite 1, Finite 2]) True
   = (Inl ValueError,
      \<lparr>pv_name = ''WF'', pv_connected = True, pv_read_access = True, pv_write_access = True,
       is_array = True, last_value = PNumArr [Finite 1, Finite 2, Finite 3], initialized = True,
       pvget_completer = False\<rparr>,
      [])"
  by (simp add: restore_pv_def compare_to_curr_def get_value_def compare_def normalize_operand_def
        np_allclose_def np_broadcast_def)

text \<open>
  Claim C10. For a connected entry with write permission, \<open>restore_pv\<close> with value
  \<open>None\<close> and no callback raises \<open>TypeError\<close> (with a callback it reports \<open>No_value\<close>).
  Without connection or write permission, and when the value equals the current one,
  it calls the callback if there is one and otherwise returns normally with no callback
  call.
\<close>

theorem restore_pv_without_callback:
  "(pv_connected pv \<and> pv_write_access pv \<longrightarrow>
      restore_pv ch pv PNone False = (Inl TypeError, pv, [])
    \<and> restore_pv ch pv PNone True = (Inr (), pv, [Callback No_value]))
   \<and> (\<not> (pv_connected pv \<and> pv_write_access pv) \<longrightarrow>
        restore_pv ch pv v False = (Inr (), pv, [])
      \<and> restore_pv ch pv v True = (Inr (), pv, [Callback Access_err]))
   \<and> (pv_connected pv \<and> pv_write_access pv \<and> v \<noteq> PNone
        \<and> compare_to_curr ch pv v = (Inr True, pv', evs) \<longrightarrow>
        restore_pv ch pv v False = (Inr (), pv', evs)
      \<and> restore_pv ch pv v True = (Inr (), pv', evs @ [Callback Equal]))"
  using restore_pv_no_access [of pv ch v False] restore_pv_no_access [of pv ch v True]
    restore_pv_None [of pv ch False] restore_pv_None [of pv ch True]
    restore_pv_equal [of pv v ch pv' evs False] restore_pv_equal [of pv v ch pv' evs True]
  by simp

theorem restore_pv_without_callback_witness:
  "restore_pv \<lparr>ch_complete = TimedOut, ch_get = PNum (Finite 1), ch_put_rejects = (\<lambda>v. False)\<rparr>
      \<lparr>pv_name = ''PV1'', pv_connected = True, pv_read_access = True, pv_write_access = True,
       is_array = False, last_value = PNum (Finite 1), initialized = True, pvget_completer = False\<rparr>
      PNone False
   = (Inl TypeError,
      \<lparr>pv_name = ''PV1'', pv_connected = True, pv_read_access = True, pv_write_access = True,
       is_array = False, last_value = PNum (Finite 1), initialized = True, pvget_completer = False\<rparr>,
      [])
   \<and> restore_pv \<lparr>ch_complete = TimedOut, ch_get = PNum (Finite 1), ch_put_rejects = (\<lambda>v. False)\<rparr>
      \<lparr>pv_name = ''PV1'', pv_connected = True, pv_read_access = True, pv_write_access = True,
       is_array = False, last_value = PNum (Finite 1), initialized = True, pvget_completer = False\<rparr>
      (PNum (Finite 1)) False
   = (Inr (),
      \<lparr>pv_name = ''PV1'', pv_connected = True, pv_read_access = True, pv_write_access = True,
       is_array = False, last_value = PNum (Finite 1), initialized = True, pvget_completer = False\<rparr>,
      [])
   \<and> restore_pv \<lparr>ch_complete = TimedOut, ch_get = PNum (Finite 1), ch_put_rejects = (\<lambda>v. False)\<rparr>
      \<lparr>pv_name = ''PV1'', pv_connected = False, pv_read_access = True, pv_write_access = True,
       is_array = False, last_value = PNum (Finite 1), initialized = True, pvget_completer = False\<rparr>
      PNone False
   = (Inr (),
      \<lparr>pv_name = ''PV1'', pv_connected = False, pv_read_access = True, pv_write_access = True,
       is_array = False, last_value = PNum (Finite 1), initialized = True, pvget_completer = False\<rparr>,
      [])"
  using restore_pv_without_callback [of
      "\<lparr>pv_name = ''PV1'', pv_connected = True, pv_read_access = True, pv_write_access = True,
       is_array = False, last_value = PNum (Finite 1), initialized = True, pvget_completer = False\<rparr>"
      "\<lparr>ch_complete = TimedOut, ch_get = PNum (Finite 1), ch_put_rejects = (\<lambda>v. False)\<rparr>"
      "PNum (Finite 1)"
      "\<lparr>pv_name = ''PV1'', pv_connected = True, pv_read_access = True, pv_write_access = True,
       is_array = False, last_value = PNum (Finite 1), initialized = True, pvget_completer = False\<rparr>"
      "[]"]
    np_isclose_self [of 0 "Finite 1"]
  by (simp add: restore_pv_def compare_to_curr_def get_value_def compare_def
        np_allclose_def np_broadcast_def)

section \<open>Properties of request-file resolution\<close>

lemma set_curr_line_sel [simp]:
  "rf_path (set_curr_line n l self) = rf_path self"
  "rf_parent (set_curr_line n l self) = rf_parent self"
  "rf_macros (set_curr_line n l self) = rf_macros self"
  "rf_c_macros (set_curr_line n l self) = rf_c_macros self"
  "rf_trace (set_curr_line n l self) = rf_trace self"
  "rf_curr_line_n (set_curr_line n l self) = n"
  "rf_curr_line (set_curr_line n l self) = l"
  by (cases self; simp)+

lemma invalid_macros_set_curr_line [simp]:
  "invalid_macros (set_curr_line n l self) txt = invalid_macros self txt"
  by (simp add: invalid_macros_def)

lemma validate_set_curr_line [simp]:
  "validate_macros_in_txt (set_curr_line n l self) txt = validate_macros_in_txt self txt"
  by (simp add: validate_macros_in_txt_def)

lemma format_err_set_curr_line [simp]:
  "format_err (set_curr_line n l self) a b msg = format_err self a b msg"
  by (simp add: format_err_def)

lemma read_lines_plain:
  assumes "plain_line (strip raw)"
  shows "read_lines os sub_read self (raw # rest) pvs =
     (let line = strip raw;
          pvname = macros_substitution (hd (split_max1 CHR '','' (rstrip line))) (rf_macros self)
      in if invalid_macros self pvname \<noteq> []
         then Some (Inl (ReqParseError
                (rf_trace self @ '' [line '' @ show_nat (rf_curr_line_n self + 1) @ '': '' @ line
                   @ '']: Following macros were not defined: ''
                   @ join '', '' (invalid_macros self pvname))))
         else read_lines os sub_read (set_curr_line (rf_curr_line_n self + 1) (Some line) self)
                rest (pvs @ [pvname]))"
  using assms
  by (simp add: plain_line_def Let_def validate_macros_in_txt_def format_err_def)

text \<open>
  Claim C6, amended. On a line that holds a PV name, let \<open>name\<close> be the text before the
  first comma after macro substitution. The tokens \<open>$(KEY)\<close> of \<open>name\<close> that are rejected
  are those that are neither the value of one of the file's macros nor named in the
  changeable-macro list. If there is one, \<open>read\<close> raises \<open>ReqParseError\<close> with the trace
  (which ends in the file's path), the line number, the line and the rejected tokens;
  if there is none, \<open>name\<close> is appended to the output as it is and reading goes on.
\<close>

theorem plain_line_macro_validation:
  assumes "plain_line (strip raw)"
    and "name = macros_substitution (hd (split_max1 CHR '','' (rstrip (strip raw)))) (rf_macros self)"
  shows "set (invalid_macros self name)
           = {tok \<in> set (findall_macros name).
                tok \<notin> set (map snd (rf_macros self)) \<and> butlast (drop 2 tok) \<notin> set (rf_c_macros self)}
       \<and> (invalid_macros self name \<noteq> [] \<longrightarrow>
            read_lines os sub_read self (raw # rest) pvs =
              Some (Inl (ReqParseError
                (rf_trace self @ '' [line '' @ show_nat (rf_curr_line_n self + 1) @ '': '' @ strip raw
                   @ '']: Following macros were not defined: ''
                   @ join '', '' (invalid_macros self name)))))
       \<and> (invalid_macros self name = [] \<longrightarrow>
            read_lines os sub_read self (raw # rest) pvs =
              read_lines os sub_read
                (set_curr_line (rf_curr_line_n self + 1) (Some (strip raw)) self)
                rest (pvs @ [name]))"
  using read_lines_plain [OF assms(1), of os sub_read self rest pvs] assms(2)
  by (auto simp add: Let_def invalid_macros_def)

text \<open>
  Claim C6 as stated fails: with the macro \<open>A\<close> defined as \<open>$(B)\<close> and an empty
  changeable-macro list, the line \<open>pv$(A)\<close> becomes \<open>pv$(B)\<close>; the token \<open>$(B)\<close> remains,
  \<open>B\<close> is not allow-listed, and the file is accepted.
\<close>

theorem macro_value_token_counterexample:
  "findall_macros ''pv$(B)'' = [''$(B)'']
   \<and> butlast (drop 2 ''$(B)'') = ''B''
   \<and> rf_c_macros (SnapshotReqFile
        \<lparr>abspath = (\<lambda>p. p), normpath = (\<lambda>p. p), path_join = (\<lambda>d f. d @ f),
         dirname = (\<lambda>p. ''/''), open_file = (\<lambda>p. Inr [''pv$(A)''])\<rparr>
        ''/C'' None [(''A'', ''$(B)'')] []) = []
   \<and> read 1
        \<lparr>abspath = (\<lambda>p. p), normpath = (\<lambda>p. p), path_join = (\<lambda>d f. d @ f),
         dirname = (\<lambda>p. ''/''), open_file = (\<lambda>p. Inr [''pv$(A)''])\<rparr>
        (SnapshotReqFile
          \<lparr>abspath = (\<lambda>p. p), normpath = (\<lambda>p. p), path_join = (\<lambda>d f. d @ f),
           dirname = (\<lambda>p. ''/''), open_file = (\<lambda>p. Inr [''pv$(A)''])\<rparr>
          ''/C'' None [(''A'', ''$(B)'')] [])
      = Some (Inr [''pv$(B)''])"
  by code_simp


theorem plain_line_macro_validation_witness:
  "read_lines
      \<lparr>abspath = (\<lambda>p. p), normpath = (\<lambda>p. p), path_join = (\<lambda>d f. d @ f),
       dirname = (\<lambda>p. ''/''), open_file = (\<lambda>p. Inl ''unused'')\<rparr>
      (\<lambda>f. None)
      (ReqFile ''/D'' None [(''S'', ''x'')] [''C''] ''/D'' 0 None)
      [''pv$(S)$(Q),1''] []
    = Some (Inl (ReqParseError
         ''/D [line 1: pv$(S)$(Q),1]: Following macros were not defined: $(Q)''))
   \<and> read_lines
      \<lparr>abspath = (\<lambda>p. p), normpath = (\<lambda>p. p), path_join = (\<lambda>d f. d @ f),
       dirname = (\<lambda>p. ''/''), open_file = (\<lambda>p. Inl ''unused'')\<rparr>
      (\<lambda>f. None)
      (ReqFile ''/D'' None [(''S'', ''x'')] [''C''] ''/D'' 0 None)
      [''pv$(S)$(C),1''] []
    = Some (Inr [''pvx$(C)''])"
proof -
  let ?os = "\<lparr>abspath = (\<lambda>p. p), normpath = (\<lambda>p. p), path_join = (\<lambda>d f. d @ f),
       dirname = (\<lambda>p. ''/''), open_file = (\<lambda>p::string. Inl ''unused'' :: string + string list)\<rparr>"
  let ?self = "ReqFile ''/D'' None [(''S'', ''x'')] [''C''] ''/D'' 0 None"
  have p1: "plain_line (strip ''pv$(S)$(Q),1'')" by code_simp
  have n1: "''pvx$(Q)'' = macros_substitution (hd (split_max1 CHR '','' (rstrip (strip ''pv$(S)$(Q),1''))))
              (rf_macros ?self)" by code_simp
  have i1: "invalid_macros ?self ''pvx$(Q)'' = [''$(Q)'']" by code_simp
  have m1: "rf_trace ?self @ '' [line '' @ show_nat (rf_curr_line_n ?self + 1) @ '': ''
              @ strip ''pv$(S)$(Q),1'' @ '']: Following macros were not defined: ''
              @ join '', '' [''$(Q)'']
            = ''/D [line 1: pv$(S)$(Q),1]: Following macros were not defined: $(Q)''" by code_simp
  have p2: "plain_line (strip ''pv$(S)$(C),1'')" by code_simp
  have n2: "''pvx$(C)'' = macros_substitution (hd (split_max1 CHR '','' (rstrip (strip ''pv$(S)$(C),1''))))
              (rf_macros ?self)" by code_simp
  have i2: "invalid_macros ?self ''pvx$(C)'' = []" by code_simp
  have a: "read_lines ?os (\<lambda>f. None) ?self [''pv$(S)$(Q),1''] []
            = Some (Inl (ReqParseError
                ''/D [line 1: pv$(S)$(Q),1]: Following macros were not defined: $(Q)''))"
    using plain_line_macro_validation [OF p1 n1, of ?os "\<lambda>f. None" "[]" "[]"] i1 m1
    by (simp del: read_lines.simps)
  have b: "read_lines ?os (\<lambda>f. None) ?self [''pv$(S)$(C),1''] [] = Some (Inr [''pvx$(C)''])"
    using plain_line_macro_validation [OF p2 n2, of ?os "\<lambda>f. None" "[]" "[]"] i2
    by (simp del: read_lines.simps) simp
  show ?thesis using a b by (simp del: read_lines.simps)
qed

lemma check_ancestors_set_curr_line [simp]:
  "check_ancestors os path (set_curr_line n l self) = check_ancestors os path self"
  by (cases self) simp


lemma check_ancestors_None_iff:
  "check_ancestors os path self = None \<longleftrightarrow>
     (\<forall>a\<in>set (ancestor_chain self). normpath os (abspath os (rf_path a)) \<noteq> path)"
proof (induction os path self rule: check_ancestors.induct)
  case (1 os path p parent m c t n l)
  show ?case
  proof (cases "normpath os (abspath os p) = path")
    case True
    then show ?thesis by (auto split: option.splits)
  next
    case False
    show ?thesis
    proof (cases parent)
      case None
      then show ?thesis using False by simp
    next
      case (Some par)
      from "1.IH" [OF False Some] show ?thesis using False Some by simp
    qed
  qed
qed

lemma SnapshotReqFile_trace:
  "suffix (rf_path (SnapshotReqFile os path parent macros cm))
          (rf_trace (SnapshotReqFile os path parent macros cm))"
  by (cases parent) (simp_all add: SnapshotReqFile_def Let_def suffix_def)




theorem check_looping_iff_ancestor:
  "(check_looping os self path = None) \<longleftrightarrow>
     (\<forall>a\<in>set (ancestor_chain self).
        normpath os (abspath os (rf_path a)) \<noteq> normpath os (abspath os path))"
  by (simp add: check_looping_def check_ancestors_None_iff)





section \<open>Properties of the save-file parser\<close>

lemma parse_lines_append:
  "parse_lines json_loads np_asarray False (xs @ ys) st
     = (case parse_lines json_loads np_asarray False xs st of
          Inl e \<Rightarrow> Inl e
        | Inr st' \<Rightarrow> parse_lines json_loads np_asarray False ys st')"
  by (induction xs arbitrary: st) (simp_all add: Let_def split: loads_result.splits sum.splits)

lemma parse_lines_undecodable_step:
  assumes "is_data_line line" "has_literal line"
    and "json_loads (line_literal line) = JSONDecodeError"
  shows "parse_lines json_loads np_asarray False (line # rest) st
           = parse_lines json_loads np_asarray False rest
               (st\<lparr>saved_pvs := AList.update (line_name line) ONone (saved_pvs st),
                   err := err st @ [decode_error (line_name line)]\<rparr>)"
  using assms
  by (simp add: is_data_line_def has_literal_def line_literal_def parse_data_line_def
        line_name_def Let_def)

lemma parse_lines_uncaught_step:
  assumes "is_data_line line" "has_literal line"
    and "json_loads (line_literal line) = Raises e"
  shows "parse_lines json_loads np_asarray False (line # rest) st = Inl e"
  using assms
  by (simp add: is_data_line_def has_literal_def line_literal_def parse_data_line_def Let_def)

lemma parse_lines_asarray_step:
  assumes "is_data_line line" "has_literal line"
    and "json_loads (line_literal line) = Decoded (OList xs)"
    and "np_asarray xs = Inl e"
  shows "parse_lines json_loads np_asarray False (line # rest) st = Inl e"
  using assms
  by (simp add: is_data_line_def has_literal_def line_literal_def parse_data_line_def Let_def)

lemma strip_name_literal:
  assumes "name \<noteq> []" "\<not> is_space (hd name)" "lit \<noteq> []" "\<not> is_space (last lit)"
    and "\<forall>c\<in>set ws. is_space c"
  shows "strip (name @ CHR '','' # lit @ ws) = name @ CHR '','' # lit"
proof -
  obtain b l where lit: "lit = b @ [l]" using assms(3) by (metis rev_exhaust)
  have l: "\<not> is_space l" using assms(4) lit by simp
  have "rev (name @ CHR '','' # lit @ ws) = rev ws @ (l # rev (name @ CHR '','' # b))"
    by (simp add: lit)
  moreover have "dropWhile is_space (rev ws @ (l # rev (name @ CHR '','' # b)))
          = l # rev (name @ CHR '','' # b)"
  proof -
    have "\<And>x. x \<in> set (rev ws) \<Longrightarrow> is_space x" using assms(5) by simp
    then have "dropWhile is_space (rev ws @ (l # rev (name @ CHR '','' # b)))
                 = dropWhile is_space (l # rev (name @ CHR '','' # b))"
      by (rule dropWhile_append2)
    then show ?thesis using l by simp
  qed
  ultimately have "rstrip (name @ CHR '','' # lit @ ws) = name @ CHR '','' # lit"
    by (simp add: rstrip_def lit)
  moreover have "lstrip (name @ CHR '','' # lit) = name @ CHR '','' # lit"
    using assms(1,2) by (cases name) (simp_all add: lstrip_def)
  ultimately show ?thesis by (simp add: strip_def)
qed

lemma split_name_literal:
  assumes "CHR '','' \<notin> set name"
  shows "split_max1 CHR '','' (name @ CHR '','' # lit) = [name, lit]"
proof -
  have "\<And>x. x \<in> set name \<Longrightarrow> x \<noteq> CHR '',''" using assms by auto
  then show ?thesis
    by (simp add: split_max1_def takeWhile_append2 dropWhile_append2)
qed

lemma parse_data_line_meta_loaded:
  "parse_data_line json_loads np_asarray line st = Inr st1 \<Longrightarrow> meta_loaded st1 = meta_loaded st"
  by (auto simp add: parse_data_line_def Let_def
        split: if_splits loads_result.splits pyobj.splits sum.splits)

lemma parse_lines_meta_loaded:
  assumes "\<forall>l\<in>set lines. \<not> startswith l ''#''"
    and "parse_lines json_loads np_asarray metadata_only lines st = Inr st'"
  shows "meta_loaded st' = meta_loaded st"
  using assms
proof (induction lines arbitrary: st)
  case Nil
  then show ?case by simp
next
  case (Cons line rest)
  have nh: "\<not> startswith line ''#''" and r: "\<forall>l\<in>set rest. \<not> startswith l ''#''"
    using Cons.prems(1) by simp_all
  show ?case
  proof (cases "\<not> metadata_only \<and> strip line \<noteq> []")
    case True
    then obtain st1 where p: "parse_data_line json_loads np_asarray line st = Inr st1"
      and q: "parse_lines json_loads np_asarray metadata_only rest st1 = Inr st'"
      using Cons.prems(2) nh by (auto split: sum.splits)
    show ?thesis
      using Cons.IH [OF r q] parse_data_line_meta_loaded [OF p] by simp
  next
    case False
    then have "parse_lines json_loads np_asarray metadata_only rest st = Inr st'"
      using Cons.prems(2) nh by auto
    then show ?thesis using Cons.IH [OF r] by simp
  qed
qed

lemma parse_from_save_file_no_meta:
  assumes "\<forall>l\<in>set lines. \<not> startswith l ''#''"
    and "parse_from_save_file json_loads np_asarray lines metadata_only = Inr (pvs, md, es)"
  shows "\<exists>es'. es = ''No meta data in the file.'' # es'"
proof -
  obtain st where p: "parse_lines json_loads np_asarray metadata_only lines
        \<lparr>saved_pvs = [], meta_data = ODict [], err = [], meta_loaded = False\<rparr> = Inr st"
    and e: "es = (if \<not> meta_loaded st then ''No meta data in the file.'' # err st else err st)"
    using assms(2) by (auto simp add: parse_from_save_file_def split: sum.splits)
  have "\<not> meta_loaded st" using parse_lines_meta_loaded [OF assms(1) p] by simp
  then show ?thesis using e by simp
qed

text \<open>
  Claim C7. A data line whose literal makes \<open>json.loads\<close> raise \<open>JSONDecodeError\<close> is
  treated as the claim says: \<open>None\<close> is stored for its PV, its error is appended and the
  loop goes on (\<open>parse_lines_undecodable_step\<close>); and a file without a line beginning
  with \<open>#\<close>, if the parse returns, has the no-metadata error first in the returned list
  (\<open>parse_from_save_file_no_meta\<close>). But the parse does abort on a malformed data line
  when the decoder raises anything else, as it does with \<open>RecursionError\<close> for a literal
  of a hundred thousand opening brackets: the \<open>except\<close> clause names \<open>JSONDecodeError\<close>
  only. Whatever the lines before it were, and whatever they had stored, such a line
  makes the whole call end with the exception; nothing of what was parsed is returned.
  (A list for which \<open>numpy.asarray\<close> raises does the same, \<open>parse_lines_asarray_step\<close>.)
\<close>

theorem parse_from_save_file_uncaught_exception:
  assumes "parse_lines json_loads np_asarray False pre
             \<lparr>saved_pvs = [], meta_data = ODict [], err = [], meta_loaded = False\<rparr> = Inr st"
    and "is_data_line line" and "has_literal line"
    and "json_loads (line_literal line) = Raises e"
  shows "parse_from_save_file json_loads np_asarray (pre @ line # rest) False = Inl e"
  using assms(1)
    parse_lines_uncaught_step [where line = line and json_loads = json_loads and e = e
      and np_asarray = np_asarray and rest = rest and st = st, OF assms(2) assms(3) assms(4)]
  by (simp add: parse_from_save_file_def parse_lines_append del: parse_lines.simps)

text \<open>
  A save file of four lines: the metadata \<open>#{}\<close>, \<open>foo,1.5\<close>, then \<open>bar,\<close> followed by a
  hundred thousand opening brackets, then \<open>baz,1.5\<close>, each ended by a newline. After
  the first two lines the value of \<open>foo\<close> is stored; the third line ends the call with
  \<open>RecursionError\<close>.
\<close>

theorem parse_from_save_file_uncaught_exception_witness:
  "parse_lines
     (\<lambda>s. if s = replicate 100000 CHR ''['' then Raises RecursionError
          else if s = ''{}'' @ [CHR 0x0A] then Decoded (ODict [])
          else if s = ''1.5'' then Decoded (OFloat (Finite (3/2)))
          else JSONDecodeError)
     (\<lambda>xs. Inr (ONdarray xs)) False
     [''#{}'' @ [CHR 0x0A], ''foo,1.5'' @ [CHR 0x0A]]
     \<lparr>saved_pvs = [], meta_data = ODict [], err = [], meta_loaded = False\<rparr>
   = Inr \<lparr>saved_pvs = [(''foo'', OFloat (Finite (3/2)))], meta_data = ODict [], err = [],
          meta_loaded = True\<rparr>
   \<and> parse_from_save_file
     (\<lambda>s. if s = replicate 100000 CHR ''['' then Raises RecursionError
          else if s = ''{}'' @ [CHR 0x0A] then Decoded (ODict [])
          else if s = ''1.5'' then Decoded (OFloat (Finite (3/2)))
          else JSONDecodeError)
     (\<lambda>xs. Inr (ONdarray xs))
     ([''#{}'' @ [CHR 0x0A], ''foo,1.5'' @ [CHR 0x0A]]
        @ (''bar'' @ CHR '','' # replicate 100000 CHR ''['' @ [CHR 0x0A])
        # [''baz,1.5'' @ [CHR 0x0A]]) False
   = Inl RecursionError"
proof -
  let ?loads = "\<lambda>s. if s = replicate 100000 CHR ''['' then Raises RecursionError
          else if s = ''{}'' @ [CHR 0x0A] then Decoded (ODict [])
          else if s = ''1.5'' then Decoded (OFloat (Finite (3/2)))
          else JSONDecodeError"
  let ?asarray = "\<lambda>xs. Inr (ONdarray xs) :: uncaught_exception + pyobj"
  let ?deep = "replicate 100000 CHR ''[''"
  let ?line = "''bar'' @ CHR '','' # ?deep @ [CHR 0x0A]"
  have ne: "?deep \<noteq> []" by simp
  have la: "last ?deep = CHR ''[''" by simp
  have s: "strip ?line = ''bar'' @ CHR '','' # ?deep"
    by (rule strip_name_literal) (simp_all add: la is_space_def)
  have sp: "split_max1 CHR '','' (strip ?line) = [''bar'', ?deep]"
    unfolding s by (rule split_name_literal) simp
  have d: "is_data_line ?line"
    by (simp only: is_data_line_def s) (simp add: startswith_def)
  have h: "has_literal ?line" by (simp only: has_literal_def sp) simp
  have l: "line_literal ?line = ?deep" by (simp only: line_literal_def sp) simp
  have r: "?loads (line_literal ?line) = Raises RecursionError"
    by (simp only: l if_True refl)
  have n1: "''{}'' @ [CHR 0x0A] \<noteq> ?deep" by (simp add: Cons_replicate_eq)
  have n2: "''1.5'' \<noteq> ?deep" by (simp add: Cons_replicate_eq)
  have st1: "strip (''foo,1.5'' @ [CHR 0x0A]) = ''foo,1.5''" by code_simp
  have sp1: "split_max1 CHR '','' ''foo,1.5'' = [''foo'', ''1.5'']" by code_simp
  have pre: "parse_lines ?loads ?asarray False [''#{}'' @ [CHR 0x0A], ''foo,1.5'' @ [CHR 0x0A]]
     \<lparr>saved_pvs = [], meta_data = ODict [], err = [], meta_loaded = False\<rparr>
   = Inr \<lparr>saved_pvs = [(''foo'', OFloat (Finite (3/2)))], meta_data = ODict [], err = [],
          meta_loaded = True\<rparr>"
    using n1 n2 by (simp add: startswith_def parse_data_line_def st1 [simplified] sp1 Let_def)
  have "parse_from_save_file ?loads ?asarray
          ([''#{}'' @ [CHR 0x0A], ''foo,1.5'' @ [CHR 0x0A]] @ ?line # [''baz,1.5'' @ [CHR 0x0A]]) False
        = Inl RecursionError"
    using pre d h r by (rule parse_from_save_file_uncaught_exception)
  then show ?thesis using pre by (simp only: simp_thms)
qed

end
